theory Spec2Isabelle
  imports Complex_Main "HOL-Library.AList" "HOL-Library.Sublist"
begin

section \<open>The notebook \<open>ex1/health.ipynb\<close> as a program\<close>

text \<open>
  The notebook is a sequence of code cells that call pandas, datasets, transformers,
  torch, scikit-learn and evaluate. The cells and the three functions the notebook
  defines (\<open>batch_tokenize\<close>, \<open>extract_features\<close>, \<open>compute_metrics\<close>) are translated
  statement by statement. What a library computes (reading the CSV file, sub-word
  tokenization, the transformer's forward pass, ridge regression, the training loop,
  the metric) is not code of the notebook: it enters as a field of the record \<open>lib\<close>,
  a function that returns a value or raises. The table operations of the datasets
  library that the notebook configures itself (batched \<open>map\<close>, \<open>set_format\<close>,
  \<open>train_test_split\<close>) are written out after their documented behaviour.
\<close>

subsection \<open>Values\<close>

datatype device = Cuda | Mps | Cpu

text \<open>
  Python values held in table cells: strings, floats (carried around, never computed
  with by the notebook), integers and nested lists (token id sequences, vectors,
  matrices).
\<close>

datatype pyval = PStr string | PFloat real | PInt int | PList "pyval list"

text \<open>
  The objects bound to the keys of a batch: a Python list, a torch tensor (with the
  device it lives on) or a numpy array. Each holds one entry per row of the batch.
\<close>

datatype obj = PyList "pyval list" | Tensor device "pyval list" | Ndarray "pyval list"

datatype error =
    KeyError string
  | IndexError
  | TypeError
  | AttributeError string
  | ValueError string
  | Raised string

text \<open>Every call the notebook makes, by the name of the API that is called.\<close>

datatype call =
    PipInstall | DriveMount | ChDir
  | ReadCsv | FromPandas | Display | GetItem | GetColumn | DictGet
  | TokenizerFromPretrained | Print | TokenizerCall | ConvertIdsToTokens
  | DatasetMap | WriteBatch | SetFormat | ManualSeed
  | CudaIsAvailable | MpsIsAvailable | TorchDevice device
  | ModelFromPretrained | ModuleTo device | TensorTo device
  | NoGrad | ModelForward | Subscript | TensorCpu | TensorNumpy
  | DataFrame | RidgeCV | SkTrainTestSplit | RidgeFit | RidgeScore | Round
  | DatasetTrainTestSplit | SeqClsFromPretrained
  | TrainingArguments | TrainerInit | TrainerTrain

subsection \<open>The kernel state and the monad of cells\<close>

text \<open>
  A torch module is an object on the heap: its parameters and the device it is on.
  The kernel state holds the log of the calls made so far (each with the exception it
  raised, if any), torch's global gradient mode, and the heap of modules.
\<close>

record module =
  weights :: "real list"
  on_device :: device

record kernel =
  calls :: "(call \<times> error option) list"
  grad_enabled :: bool
  heap :: "nat \<Rightarrow> module"
  next_free :: nat

type_synonym 'a py = "kernel \<Rightarrow> (error + 'a) \<times> kernel"

definition py_return :: "'a \<Rightarrow> 'a py" where
  "py_return x = (\<lambda>s. (Inr x, s))"

text \<open>
  Sequencing two statements: an exception of the first ends the computation with the
  state reached so far. The notebook has no \<open>try\<close> statement, so this is the only
  way statements are combined.
\<close>

definition py_bind :: "'a py \<Rightarrow> ('a \<Rightarrow> 'b py) \<Rightarrow> 'b py" where
  "py_bind m f = (\<lambda>s. case m s of (Inl e, s') \<Rightarrow> (Inl e, s') | (Inr x, s') \<Rightarrow> f x s')"

definition outcome :: "error + 'a \<Rightarrow> error option" where
  "outcome r = (case r of Inl e \<Rightarrow> Some e | Inr _ \<Rightarrow> None)"

text \<open>A call whose result (a value or an exception) is \<open>r\<close>: it is appended to the log.\<close>

definition py_call :: "call \<Rightarrow> error + 'a \<Rightarrow> 'a py" where
  "py_call c r = (\<lambda>s. (r, s\<lparr>calls := calls s @ [(c, outcome r)]\<rparr>))"

fun py_mapM :: "('a \<Rightarrow> 'b py) \<Rightarrow> 'a list \<Rightarrow> ('b list) py" where
  "py_mapM f [] = py_return []"
| "py_mapM f (x # xs) =
     py_bind (f x) (\<lambda>y. py_bind (py_mapM f xs) (\<lambda>ys. py_return (y # ys)))"

text \<open>Mapping a function that may raise over a list: the first exception ends it.\<close>

fun mapE :: "('a \<Rightarrow> error + 'b) \<Rightarrow> 'a list \<Rightarrow> error + 'b list" where
  "mapE f [] = Inr []"
| "mapE f (x # xs) =
     (case f x of
        Inl e \<Rightarrow> Inl e
      | Inr y \<Rightarrow> (case mapE f xs of Inl e \<Rightarrow> Inl e | Inr ys \<Rightarrow> Inr (y # ys)))"

subsection \<open>Tables and datasets\<close>

text \<open>
  A pandas DataFrame and the Arrow table of a datasets \<open>Dataset\<close> are columnar: a
  list of named columns, each with one value per row. A batch handed to a mapped
  function is a dictionary from column names to objects.
\<close>

type_synonym batch = "(string \<times> obj) list"
type_synonym table = "(string \<times> pyval list) list"

text \<open>
  A \<open>Dataset\<close>: its table and its output format. \<open>None\<close> is the default format
  (Python objects, all columns); \<open>Some cols\<close> is the torch format restricted to the
  columns \<open>cols\<close>, as set by \<open>set_format('torch', columns=cols)\<close>.
\<close>

record dataset =
  columns :: table
  format_columns :: "string list option"

record targs =
  output_dir :: string
  per_device_train_batch_size :: nat
  per_device_eval_batch_size :: nat
  logging_steps :: real
  evaluation_strategy :: string
  num_train_epochs :: nat

subsection \<open>The libraries\<close>

text \<open>
  The tokenizer object returned by \<open>AutoTokenizer.from_pretrained\<close>: the attributes
  the notebook reads and the two methods it calls. \<open>tokenize tok texts padding
  truncation\<close> is the call \<open>tokenizer(texts, padding=..., truncation=...)\<close>.
\<close>

record tokenizer =
  vocab_size :: nat
  model_max_length :: nat
  model_input_names :: "string list"
  tokenize :: "obj \<Rightarrow> string \<Rightarrow> bool \<Rightarrow> error + batch"
  convert_ids_to_tokens :: "pyval \<Rightarrow> error + pyval list"

text \<open>
  What the libraries compute. Each field is the result of one API call at the given
  arguments: a value, or the exception the call raises.
  \<^item> \<open>raises c\<close>: the exception, if any, raised by a call \<open>c\<close> whose value the
    model writes out itself (displays, constructors, conversions);
  \<^item> \<open>forward w d g kwargs\<close>: the \<open>last_hidden_state\<close> of a module with parameters
    \<open>w\<close> on device \<open>d\<close>, called in gradient mode \<open>g\<close> with keyword arguments
    \<open>kwargs\<close>;
  \<^item> \<open>to_device d\<close>: whether moving a tensor or module to \<open>d\<close> succeeds;
  \<^item> \<open>permutation seed n\<close>: the random order of \<open>n\<close> rows drawn by
    \<open>Dataset.train_test_split\<close> from the generator seeded with \<open>seed\<close>;
  \<^item> \<open>trainer_train w d args train test compute_metrics\<close>: the parameters after
    \<open>Trainer.train\<close>.
\<close>

record lib =
  raises :: "call \<Rightarrow> error option"
  in_colab :: bool
  drive_mount :: "string \<Rightarrow> error + unit"
  read_csv :: "string \<Rightarrow> error + table"
  tokenizer_from_pretrained :: "string \<Rightarrow> error + tokenizer"
  cuda_is_available :: bool
  mps_is_available :: bool
  to_device :: "device \<Rightarrow> error + unit"
  model_from_pretrained :: "string \<Rightarrow> error + real list"
  forward :: "real list \<Rightarrow> device \<Rightarrow> bool \<Rightarrow> (string \<rightharpoonup> obj) \<Rightarrow> error + obj"
  sk_train_test_split ::
    "pyval list \<Rightarrow> obj \<Rightarrow> nat \<Rightarrow> error + (pyval list \<times> pyval list \<times> obj \<times> obj)"
  ridge_fit :: "pyval list \<Rightarrow> obj \<Rightarrow> error + real list"
  ridge_score :: "real list \<Rightarrow> pyval list \<Rightarrow> obj \<Rightarrow> error + real"
  np_round :: "real \<Rightarrow> nat \<Rightarrow> real"
  permutation :: "nat \<Rightarrow> nat \<Rightarrow> nat list"
  seqcls_from_pretrained :: "string \<Rightarrow> nat \<Rightarrow> error + real list"
  training_arguments :: "targs \<Rightarrow> error + unit"
  evaluate_load :: "string \<Rightarrow> error + nat"
  metric_compute :: "nat \<Rightarrow> obj \<Rightarrow> obj \<Rightarrow> error + real"
  trainer_train ::
    "real list \<Rightarrow> device \<Rightarrow> targs \<Rightarrow> dataset \<Rightarrow> dataset \<Rightarrow>
       (obj list \<Rightarrow> error + (string \<times> real) list) \<Rightarrow> error + real list"

subsection \<open>Calls and context managers\<close>

text \<open>A call that returns \<open>v\<close> unless the library raises.\<close>

definition py_total :: "lib \<Rightarrow> call \<Rightarrow> 'a \<Rightarrow> 'a py" where
  "py_total L c v = py_call c (case raises L c of None \<Rightarrow> Inr v | Some e \<Rightarrow> Inl e)"

text \<open>
  \<open>with torch.no_grad(): body\<close>. The context manager switches gradient mode off,
  and restores the previous mode when the block is left, normally or by an exception,
  which it does not catch.
\<close>

definition no_grad :: "lib \<Rightarrow> 'a py \<Rightarrow> 'a py" where
  "no_grad L body =
     py_bind (py_total L NoGrad ()) (\<lambda>_. (\<lambda>s.
       let prev = grad_enabled s;
           (r, s') = body (s\<lparr>grad_enabled := False\<rparr>)
       in (r, s'\<lparr>grad_enabled := prev\<rparr>)))"

subsection \<open>Dictionary and table operations\<close>

text \<open>\<open>d[k]\<close> on a dictionary raises KeyError for a missing key.\<close>

definition getitem :: "(string \<times> 'a) list \<Rightarrow> string \<Rightarrow> error + 'a" where
  "getitem d k = (case map_of d k of None \<Rightarrow> Inl (KeyError k) | Some v \<Rightarrow> Inr v)"

fun obj_rows :: "obj \<Rightarrow> pyval list" where
  "obj_rows (PyList xs) = xs"
| "obj_rows (Tensor d xs) = xs"
| "obj_rows (Ndarray xs) = xs"

definition num_rows :: "table \<Rightarrow> nat" where
  "num_rows t = (case t of [] \<Rightarrow> 0 | (c, xs) # _ \<Rightarrow> length xs)"

text \<open>\<open>Dataset.from_pandas(df)\<close>: the frame's columns, in the default format.\<close>

definition from_pandas :: "table \<Rightarrow> dataset" where
  "from_pandas df = \<lparr>columns = df, format_columns = None\<rparr>"

text \<open>
  The batch a mapped function receives: in the default format every column as a
  Python list; in the torch format only the formatted columns, each as a CPU tensor.
\<close>

definition format_batch :: "string list option \<Rightarrow> table \<Rightarrow> batch" where
  "format_batch fmt t =
     (case fmt of
        None \<Rightarrow> map (\<lambda>(c, xs). (c, PyList xs)) t
      | Some cols \<Rightarrow>
          map (\<lambda>(c, xs). (c, Tensor Cpu xs)) (filter (\<lambda>(c, xs). c \<in> set cols) t))"

definition slice_rows :: "nat \<Rightarrow> nat \<Rightarrow> table \<Rightarrow> table" where
  "slice_rows i k t = map (\<lambda>(c, xs). (c, take k (drop i xs))) t"

text \<open>The consecutive batches of \<open>bs\<close> rows; the last one may be shorter.\<close>

definition batch_tables :: "nat \<Rightarrow> table \<Rightarrow> table list" where
  "batch_tables bs t =
     map (\<lambda>j. slice_rows (j * bs) bs t) [0 ..< (num_rows t + bs - 1) div bs]"

text \<open>
  The function's output updates the batch: a returned column replaces the column of
  that name or is added after the existing ones. All columns of the result must
  have the same number of rows.
\<close>

definition merge_batch :: "table \<Rightarrow> batch \<Rightarrow> error + table" where
  "merge_batch tb out =
     (let merged = filter (\<lambda>(c, xs). c \<notin> set (map fst out)) tb
                   @ map (\<lambda>(c, v). (c, obj_rows v)) out
      in if list_all (\<lambda>(c, xs). length xs = num_rows merged) merged
         then Inr merged else Inl (Raised ''ArrowInvalid''))"

definition append_tables :: "table \<Rightarrow> table \<Rightarrow> error + table" where
  "append_tables a b =
     (if map fst a = map fst b
      then Inr (map (\<lambda>((c, xs), (c', ys)). (c, xs @ ys)) (zip a b))
      else Inl (Raised ''schema mismatch''))"

fun concat_tables :: "table list \<Rightarrow> error + table" where
  "concat_tables [] = Inr []"
| "concat_tables [t] = Inr t"
| "concat_tables (t # ts) =
     (case concat_tables ts of Inl e \<Rightarrow> Inl e | Inr r \<Rightarrow> append_tables t r)"

text \<open>
  The format of a mapped dataset: columns that were formatted stay formatted and new
  columns are formatted as well; columns hidden by the format stay hidden.
\<close>

definition transmit_format :: "dataset \<Rightarrow> table \<Rightarrow> string list option" where
  "transmit_format ds t =
     (case format_columns ds of
        None \<Rightarrow> None
      | Some cols \<Rightarrow>
          Some (filter (\<lambda>c. c \<in> set cols \<or> c \<notin> set (map fst (columns ds))) (map fst t)))"

text \<open>
  An internal step of a library call that is already in the log: it is logged only
  when it raises.
\<close>

definition py_raise_in :: "call \<Rightarrow> error + 'a \<Rightarrow> 'a py" where
  "py_raise_in c r = (case r of Inl e \<Rightarrow> py_call c (Inl e) | Inr x \<Rightarrow> py_return x)"

text \<open>
  \<open>ds.map(f, batched=True, batch_size=bs)\<close>: \<open>f\<close> is applied to the batches in
  order, its outputs are merged into the batches, and the merged batches are
  concatenated. An empty dataset is returned as it is. Writing a merged batch or the
  final table is the internal step \<open>WriteBatch\<close>.
\<close>

definition dataset_map :: "lib \<Rightarrow> (batch \<Rightarrow> batch py) \<Rightarrow> nat \<Rightarrow> dataset \<Rightarrow> dataset py" where
  "dataset_map L f bs ds =
     py_bind (py_total L DatasetMap ()) (\<lambda>_.
     py_bind
       (py_mapM
          (\<lambda>tb. py_bind (f (format_batch (format_columns ds) tb)) (\<lambda>out.
                 py_raise_in WriteBatch (merge_batch tb out)))
          (batch_tables bs (columns ds)))
       (\<lambda>parts.
     if parts = [] then py_return ds
     else py_bind (py_raise_in WriteBatch (concat_tables parts)) (\<lambda>t.
          py_return \<lparr>columns = t, format_columns = transmit_format ds t\<rparr>)))"

text \<open>\<open>ds.set_format('torch', columns=cols)\<close>: the columns must exist.\<close>

definition set_format :: "string list \<Rightarrow> dataset \<Rightarrow> error + dataset" where
  "set_format cols ds =
     (if set cols \<subseteq> set (map fst (columns ds))
      then Inr (ds\<lparr>format_columns := Some cols\<rparr>)
      else Inl (ValueError ''columns not in the dataset''))"

text \<open>\<open>ds[0]\<close>: the first row as a dictionary; IndexError on an empty dataset.\<close>

definition row0 :: "dataset \<Rightarrow> error + (string \<times> pyval) list" where
  "row0 ds =
     (if num_rows (columns ds) = 0 then Inl IndexError
      else mapE (\<lambda>(c, xs). case xs of [] \<Rightarrow> Inl IndexError | x # _ \<Rightarrow> Inr (c, x))
             (case format_columns ds of
                None \<Rightarrow> columns ds
              | Some cols \<Rightarrow> filter (\<lambda>(c, xs). c \<in> set cols) (columns ds)))"

text \<open>\<open>ds[name]\<close>: a whole column, as a tensor when the format covers it.\<close>

definition getcol :: "dataset \<Rightarrow> string \<Rightarrow> error + obj" where
  "getcol ds c =
     (case map_of (columns ds) c of
        None \<Rightarrow> Inl (KeyError c)
      | Some xs \<Rightarrow>
          (case format_columns ds of
             None \<Rightarrow> Inr (PyList xs)
           | Some cols \<Rightarrow> if c \<in> set cols then Inr (Tensor Cpu xs) else Inr (PyList xs)))"

definition select_rows :: "nat list \<Rightarrow> table \<Rightarrow> table" where
  "select_rows idx t = map (\<lambda>(c, xs). (c, map (\<lambda>i. xs ! i) idx)) t"

text \<open>
  \<open>ds.train_test_split(test_size=ts, seed=seed)\<close> with a fractional test size: the
  test split has \<open>ceil(ts * n)\<close> rows and the train split the remaining ones; the rows
  are drawn in the order of a random permutation, the test rows first. The result is
  the pair \<open>(train, test)\<close> of the returned \<open>DatasetDict\<close>.
\<close>

definition train_test_split :: "lib \<Rightarrow> real \<Rightarrow> nat \<Rightarrow> dataset \<Rightarrow> error + dataset \<times> dataset" where
  "train_test_split L test_size seed ds =
     (let n = num_rows (columns ds);
          n_test = nat \<lceil>test_size * real n\<rceil>;
          n_train = n - n_test;
          perm = permutation L seed n
      in if test_size < 0 \<or> 1 < test_size then Inl (ValueError ''test_size'')
         else if n_train = 0 then Inl (ValueError ''the resulting train set will be empty'')
         else if \<not> list_all (\<lambda>i. i < n) perm then Inl IndexError
         else Inr (ds\<lparr>columns := select_rows (take n_train (drop n_test perm)) (columns ds)\<rparr>,
                   ds\<lparr>columns := select_rows (take n_test perm) (columns ds)\<rparr>))"

subsection \<open>Modules on the heap\<close>

text \<open>A freshly loaded module is a new object, on the CPU.\<close>

definition alloc_module :: "real list \<Rightarrow> nat py" where
  "alloc_module w = (\<lambda>s.
     (Inr (next_free s),
      s\<lparr>heap := (heap s)(next_free s := \<lparr>weights = w, on_device = Cpu\<rparr>),
        next_free := Suc (next_free s)\<rparr>))"

text \<open>\<open>m.to(device)\<close> moves the module in place and returns it.\<close>

definition module_to :: "lib \<Rightarrow> device \<Rightarrow> nat \<Rightarrow> nat py" where
  "module_to L d m =
     py_bind (py_call (ModuleTo d) (to_device L d)) (\<lambda>_. (\<lambda>s.
       (Inr m, s\<lparr>heap := (heap s)(m := (heap s m)\<lparr>on_device := d\<rparr>)\<rparr>)))"

subsection \<open>Tensor operations used by \<open>extract_features\<close>\<close>

text \<open>\<open>v.to(device)\<close>: only a tensor has the method.\<close>

definition tensor_to :: "lib \<Rightarrow> device \<Rightarrow> obj \<Rightarrow> obj py" where
  "tensor_to L d v =
     (case v of
        Tensor _ xs \<Rightarrow>
          py_call (TensorTo d)
            (case to_device L d of Inl e \<Rightarrow> Inl e | Inr _ \<Rightarrow> Inr (Tensor d xs))
      | _ \<Rightarrow> py_call (TensorTo d) (Inl (AttributeError ''to'')))"

text \<open>
  \<open>model(**inputs).last_hidden_state\<close>: the module's parameters and device are read
  from the heap; the inputs are passed by keyword.
\<close>

definition module_call :: "lib \<Rightarrow> nat \<Rightarrow> batch \<Rightarrow> obj py" where
  "module_call L m inputs = (\<lambda>s.
     py_call ModelForward
       (forward L (weights (heap s m)) (on_device (heap s m)) (grad_enabled s)
          (map_of inputs)) s)"

text \<open>\<open>t[:,0]\<close>: entry 0 of every row; a row without entry 0 raises IndexError.\<close>

fun select0 :: "pyval \<Rightarrow> error + pyval" where
  "select0 (PList (x # xs)) = Inr x"
| "select0 _ = Inl IndexError"

definition index_col0 :: "obj \<Rightarrow> error + obj" where
  "index_col0 t =
     (case t of
        Tensor d rows \<Rightarrow>
          (case mapE select0 rows of Inl e \<Rightarrow> Inl e | Inr xs \<Rightarrow> Inr (Tensor d xs))
      | Ndarray rows \<Rightarrow>
          (case mapE select0 rows of Inl e \<Rightarrow> Inl e | Inr xs \<Rightarrow> Inr (Ndarray xs))
      | PyList _ \<Rightarrow> Inl TypeError)"

text \<open>\<open>t.cpu()\<close> moves a tensor to the CPU.\<close>

definition tensor_cpu :: "obj \<Rightarrow> error + obj" where
  "tensor_cpu t =
     (case t of Tensor _ xs \<Rightarrow> Inr (Tensor Cpu xs) | _ \<Rightarrow> Inl (AttributeError ''cpu''))"

text \<open>\<open>t.numpy()\<close> is defined for CPU tensors only.\<close>

definition tensor_numpy :: "obj \<Rightarrow> error + obj" where
  "tensor_numpy t =
     (case t of
        Tensor Cpu xs \<Rightarrow> Inr (Ndarray xs)
      | Tensor _ xs \<Rightarrow> Inl TypeError
      | _ \<Rightarrow> Inl (AttributeError ''numpy''))"

subsection \<open>\<open>extract_features\<close>\<close>

text \<open>
  \<^verbatim>\<open>
  def extract_features(batch):
      inputs = {k:v.to(device) for k, v in batch.items() if k in tokenizer.model_input_names}
      with torch.no_grad():
          last_hidden_state = model(**inputs).last_hidden_state
      return {"hidden_state": last_hidden_state[:,0].cpu().numpy()}
  \<close>
  The globals \<open>tokenizer\<close>, \<open>device\<close> and \<open>model\<close> that the function reads are its
  first arguments here; \<open>model\<close> is a reference into the heap.
\<close>

definition extract_features :: "lib \<Rightarrow> tokenizer \<Rightarrow> device \<Rightarrow> nat \<Rightarrow> batch \<Rightarrow> batch py" where
  "extract_features L tok dev model b =
     py_bind
       (py_mapM (\<lambda>(k, v). py_bind (tensor_to L dev v) (\<lambda>v'. py_return (k, v')))
          (filter (\<lambda>(k, v). k \<in> set (model_input_names tok)) b))
       (\<lambda>inputs.
     py_bind (no_grad L (module_call L model inputs)) (\<lambda>last_hidden_state.
     py_bind (py_call Subscript (index_col0 last_hidden_state)) (\<lambda>cls.
     py_bind (py_call TensorCpu (tensor_cpu cls)) (\<lambda>c.
     py_bind (py_call TensorNumpy (tensor_numpy c)) (\<lambda>arr.
     py_return [(''hidden_state'', arr)])))))"

subsection \<open>\<open>batch_tokenize\<close>\<close>

text \<open>
  \<^verbatim>\<open>
  batch_tokenize = lambda batch: tokenizer(batch['text'], padding="max_length", truncation=True)
  \<close>
\<close>

definition batch_tokenize :: "tokenizer \<Rightarrow> batch \<Rightarrow> batch py" where
  "batch_tokenize tok b =
     py_bind (py_call Subscript (getitem b ''text'')) (\<lambda>texts.
     py_call TokenizerCall (tokenize tok texts ''max_length'' True))"

subsection \<open>\<open>compute_metrics\<close>\<close>

text \<open>
  \<^verbatim>\<open>
  def compute_metrics(eval_preds):
      metric = evaluate.load("r_squared")
      preds, labels = eval_preds
      return {"r_squared": metric.compute(predictions=preds, references=labels)}
  \<close>
  The function is called by the trainer, not by a cell; it is a function from the
  evaluation predictions to a dictionary or an exception.
\<close>

definition compute_metrics :: "lib \<Rightarrow> obj list \<Rightarrow> error + (string \<times> real) list" where
  "compute_metrics L eval_preds =
     (case evaluate_load L ''r_squared'' of
        Inl e \<Rightarrow> Inl e
      | Inr metric \<Rightarrow>
          (case eval_preds of
             [preds, labels] \<Rightarrow>
               (case metric_compute L metric preds labels of
                  Inl e \<Rightarrow> Inl e
                | Inr v \<Rightarrow> Inr [(''r_squared'', v)])
           | _ \<Rightarrow> Inl (ValueError ''unpack'')))"

subsection \<open>The cells, in the order of the notebook\<close>

text \<open>
  Cell 2: in Google Colab only, install the packages, mount the drive and change the
  working directory.
\<close>

definition cell_setup :: "lib \<Rightarrow> unit py" where
  "cell_setup L =
     (if in_colab L then
        py_bind (py_call PipInstall (Inr ())) (\<lambda>_.
        py_bind (py_call PipInstall (Inr ())) (\<lambda>_.
        py_bind (py_call DriveMount (drive_mount L ''/content/drive'')) (\<lambda>_.
        py_call ChDir (Inr ()))))
      else py_return ())"

text \<open>Cell 6: \<open>dat = pd.read_csv('health.csv'); dat\<close>\<close>

definition cell_read_csv :: "lib \<Rightarrow> table py" where
  "cell_read_csv L =
     py_bind (py_call ReadCsv (read_csv L ''health.csv'')) (\<lambda>dat.
     py_bind (py_total L Display ()) (\<lambda>_. py_return dat))"

text \<open>Cell 7: \<open>dat = Dataset.from_pandas(dat); dat\<close>\<close>

definition cell_from_pandas :: "lib \<Rightarrow> table \<Rightarrow> dataset py" where
  "cell_from_pandas L df =
     py_bind (py_total L FromPandas (from_pandas df)) (\<lambda>dat.
     py_bind (py_total L Display ()) (\<lambda>_. py_return dat))"

text \<open>Cell 9: \<open>dat[0]\<close>\<close>

definition cell_show_first :: "lib \<Rightarrow> dataset \<Rightarrow> unit py" where
  "cell_show_first L dat =
     py_bind (py_call GetItem (row0 dat)) (\<lambda>_. py_total L Display ())"

definition model_ckpt :: string where
  "model_ckpt = ''distilbert-base-uncased''"

text \<open>
  Cell 13: \<open>tokenizer = AutoTokenizer.from_pretrained(model_ckpt)\<close> and the only
  \<open>print\<close> statement of the notebook (vocabulary size and maximal context length).
\<close>

definition cell_tokenizer :: "lib \<Rightarrow> tokenizer py" where
  "cell_tokenizer L =
     py_bind (py_call TokenizerFromPretrained (tokenizer_from_pretrained L model_ckpt))
       (\<lambda>tokenizer.
     py_bind (py_total L Print ()) (\<lambda>_. py_return tokenizer))"

text \<open>
  Cell 15: \<open>dat = dat.map(batch_tokenize, batched=True, batch_size=8); dat[0]\<close>
\<close>

definition cell_tokenize :: "lib \<Rightarrow> tokenizer \<Rightarrow> dataset \<Rightarrow> dataset py" where
  "cell_tokenize L tokenizer dat =
     py_bind (dataset_map L (batch_tokenize tokenizer) 8 dat) (\<lambda>dat'.
     py_bind (py_call GetItem (row0 dat')) (\<lambda>_.
     py_bind (py_total L Display ()) (\<lambda>_. py_return dat')))"

text \<open>Cell 17: \<open>tokenizer.convert_ids_to_tokens(dat[0]['input_ids'])[:100]\<close>\<close>

definition cell_show_tokens :: "lib \<Rightarrow> tokenizer \<Rightarrow> dataset \<Rightarrow> unit py" where
  "cell_show_tokens L tokenizer dat =
     py_bind (py_call GetItem (row0 dat)) (\<lambda>row.
     py_bind (py_call DictGet (getitem row ''input_ids'')) (\<lambda>ids.
     py_bind (py_call ConvertIdsToTokens (convert_ids_to_tokens tokenizer ids)) (\<lambda>toks.
     py_bind (py_return (take 100 toks)) (\<lambda>_.
     py_total L Display ()))))"

text \<open>Cell 19: \<open>torch.manual_seed(42)\<close>\<close>

definition cell_seed :: "lib \<Rightarrow> unit py" where
  "cell_seed L = py_total L ManualSeed ()"

text \<open>
  Cell 21: \<open>dat.set_format('torch', columns=['input_ids', 'attention_mask', 'labels']); dat\<close>
\<close>

definition cell_set_format :: "lib \<Rightarrow> dataset \<Rightarrow> dataset py" where
  "cell_set_format L dat =
     py_bind
       (py_call SetFormat (set_format [''input_ids'', ''attention_mask'', ''labels''] dat))
       (\<lambda>dat'.
     py_bind (py_total L Display ()) (\<lambda>_. py_return dat'))"

text \<open>
  Cell 22, the device selection:
  \<^verbatim>\<open>
  if torch.cuda.is_available():
      device = torch.device('cuda')
  elif torch.backends.mps.is_available():
      device = torch.device('mps')
  else:
      device = torch.device('cpu')
  device
  \<close>
\<close>

definition select_device :: "lib \<Rightarrow> device py" where
  "select_device L =
     py_bind (py_total L CudaIsAvailable (cuda_is_available L)) (\<lambda>cuda.
     if cuda then py_total L (TorchDevice Cuda) Cuda
     else
       py_bind (py_total L MpsIsAvailable (mps_is_available L)) (\<lambda>mps.
       if mps then py_total L (TorchDevice Mps) Mps
       else py_total L (TorchDevice Cpu) Cpu))"

definition cell_device :: "lib \<Rightarrow> device py" where
  "cell_device L =
     py_bind (select_device L) (\<lambda>device.
     py_bind (py_total L Display ()) (\<lambda>_. py_return device))"

text \<open>
  Cell 23: \<open>model = AutoModel.from_pretrained(model_ckpt).to(device)\<close>, then the
  model input names are displayed.
\<close>

definition cell_load_model :: "lib \<Rightarrow> device \<Rightarrow> nat py" where
  "cell_load_model L device =
     py_bind (py_call ModelFromPretrained (model_from_pretrained L model_ckpt)) (\<lambda>w.
     py_bind (alloc_module w) (\<lambda>m.
     py_bind (module_to L device m) (\<lambda>model.
     py_bind (py_total L Display ()) (\<lambda>_. py_return model))))"

text \<open>
  Cell 25: \<open>dat = dat.map(extract_features, batched=True, batch_size=8)\<close>, then
  \<open>dat['hidden_state'].shape\<close> is displayed.
\<close>

definition cell_extract :: "lib \<Rightarrow> tokenizer \<Rightarrow> device \<Rightarrow> nat \<Rightarrow> dataset \<Rightarrow> dataset py" where
  "cell_extract L tokenizer device model dat =
     py_bind (dataset_map L (extract_features L tokenizer device model) 8 dat) (\<lambda>dat'.
     py_bind (py_call GetColumn (getcol dat' ''hidden_state'')) (\<lambda>_.
     py_bind (py_total L Display ()) (\<lambda>_. py_return dat')))"

text \<open>Cell 28: \<open>embeds = pd.DataFrame(dat['hidden_state']); embeds\<close>\<close>

definition cell_embeds :: "lib \<Rightarrow> dataset \<Rightarrow> (pyval list) py" where
  "cell_embeds L dat =
     py_bind (py_call GetColumn (getcol dat ''hidden_state'')) (\<lambda>h.
     py_bind (py_total L DataFrame (obj_rows h)) (\<lambda>embeds.
     py_bind (py_total L Display ()) (\<lambda>_. py_return embeds)))"

text \<open>Cell 29: \<open>regr = RidgeCV(); regr\<close>\<close>

definition cell_ridge :: "lib \<Rightarrow> unit py" where
  "cell_ridge L = py_bind (py_total L RidgeCV ()) (\<lambda>_. py_total L Display ())"

text \<open>
  Cell 30:
  \<open>X_train, X_test, y_train, y_test = train_test_split(embeds, dat['labels'], random_state=42)\<close>,
  then the sizes are displayed.
\<close>

definition cell_sk_split ::
  "lib \<Rightarrow> pyval list \<Rightarrow> dataset \<Rightarrow> (pyval list \<times> pyval list \<times> obj \<times> obj) py" where
  "cell_sk_split L embeds dat =
     py_bind (py_call GetColumn (getcol dat ''labels'')) (\<lambda>labels.
     py_bind (py_call SkTrainTestSplit (sk_train_test_split L embeds labels 42)) (\<lambda>parts.
     py_bind (py_total L Display ()) (\<lambda>_. py_return parts)))"

text \<open>
  Cell 31: \<open>regr.fit(X_train, y_train)\<close>, then
  \<open>regr.score(X_test, y_test).round(2)\<close> is displayed.
\<close>

definition cell_fit_score :: "lib \<Rightarrow> (pyval list \<times> pyval list \<times> obj \<times> obj) \<Rightarrow> real py" where
  "cell_fit_score L parts =
     (case parts of (X_train, X_test, y_train, y_test) \<Rightarrow>
        py_bind (py_call RidgeFit (ridge_fit L X_train y_train)) (\<lambda>regr.
        py_bind (py_call RidgeScore (ridge_score L regr X_test y_test)) (\<lambda>r2.
        py_bind (py_total L Round (np_round L r2 2)) (\<lambda>shown.
        py_bind (py_total L Display ()) (\<lambda>_. py_return shown)))))"

text \<open>Cell 35: \<open>dat = dat.train_test_split(test_size=0.2, seed=42); dat\<close>\<close>

definition cell_split :: "lib \<Rightarrow> dataset \<Rightarrow> (dataset \<times> dataset) py" where
  "cell_split L dat =
     py_bind (py_call DatasetTrainTestSplit (train_test_split L (2 / 10) 42 dat)) (\<lambda>dd.
     py_bind (py_total L Display ()) (\<lambda>_. py_return dd))"

text \<open>
  Cell 37:
  \<open>model = AutoModelForSequenceClassification.from_pretrained(model_ckpt, num_labels=1).to(device)\<close>,
  then the model is displayed.
\<close>

definition cell_load_seqcls :: "lib \<Rightarrow> device \<Rightarrow> nat py" where
  "cell_load_seqcls L device =
     py_bind (py_call SeqClsFromPretrained (seqcls_from_pretrained L model_ckpt 1)) (\<lambda>w.
     py_bind (alloc_module w) (\<lambda>m.
     py_bind (module_to L device m) (\<lambda>model.
     py_bind (py_total L Display ()) (\<lambda>_. py_return model))))"

text \<open>
  Cell 38: the training arguments, the trainer and \<open>trainer.train()\<close>. Training
  updates the parameters of the module in place.
\<close>

definition training_args :: targs where
  "training_args =
     \<lparr>output_dir = model_ckpt @ ''-finetuned-health'',
      per_device_train_batch_size = 8,
      per_device_eval_batch_size = 8,
      logging_steps = 1 / 8,
      evaluation_strategy = ''epoch'',
      num_train_epochs = 10\<rparr>"

definition cell_train :: "lib \<Rightarrow> nat \<Rightarrow> (dataset \<times> dataset) \<Rightarrow> unit py" where
  "cell_train L model dd =
     py_bind (py_call TrainingArguments (training_arguments L training_args)) (\<lambda>_.
     py_bind (py_total L TrainerInit ()) (\<lambda>_.
     py_bind (\<lambda>s.
        py_call TrainerTrain
          (trainer_train L (weights (heap s model)) (on_device (heap s model))
             training_args (fst dd) (snd dd) (compute_metrics L)) s) (\<lambda>w.
     py_bind (\<lambda>s. (Inr (), s\<lparr>heap := (heap s)(model := (heap s model)\<lparr>weights := w\<rparr>)\<rparr>)) (\<lambda>_.
     py_total L Display ()))))"

subsection \<open>Running the notebook from top to bottom\<close>

definition run_all :: "lib \<Rightarrow> unit py" where
  "run_all L =
     py_bind (cell_setup L) (\<lambda>_.
     py_bind (cell_read_csv L) (\<lambda>df.
     py_bind (cell_from_pandas L df) (\<lambda>dat.
     py_bind (cell_show_first L dat) (\<lambda>_.
     py_bind (cell_tokenizer L) (\<lambda>tokenizer.
     py_bind (cell_tokenize L tokenizer dat) (\<lambda>dat.
     py_bind (cell_show_tokens L tokenizer dat) (\<lambda>_.
     py_bind (cell_seed L) (\<lambda>_.
     py_bind (cell_set_format L dat) (\<lambda>dat.
     py_bind (cell_device L) (\<lambda>device.
     py_bind (cell_load_model L device) (\<lambda>model.
     py_bind (cell_extract L tokenizer device model dat) (\<lambda>dat.
     py_bind (cell_embeds L dat) (\<lambda>embeds.
     py_bind (cell_ridge L) (\<lambda>_.
     py_bind (cell_sk_split L embeds dat) (\<lambda>parts.
     py_bind (cell_fit_score L parts) (\<lambda>_.
     py_bind (cell_split L dat) (\<lambda>dd.
     py_bind (cell_load_seqcls L device) (\<lambda>model.
     cell_train L model dd))))))))))))))))))"

section \<open>Properties of computations\<close>

text \<open>
  A computation keeps the torch state when the heap of modules, the gradient mode and
  the allocation pointer are the same after it as before, whatever it returns.
\<close>

definition keeps :: "'a py \<Rightarrow> bool" where
  "keeps m =
     (\<forall>s. heap (snd (m s)) = heap s \<and> grad_enabled (snd (m s)) = grad_enabled s
          \<and> next_free (snd (m s)) = next_free s)"

text \<open>The calls a computation adds to the log when started in state \<open>s\<close>.\<close>

definition new_calls :: "'a py \<Rightarrow> kernel \<Rightarrow> (call \<times> error option) list" where
  "new_calls m s = drop (length (calls s)) (calls (snd (m s)))"

text \<open>
  The result \<open>r\<close> of a computation agrees with the calls \<open>evs\<close> it logged: when it
  returns, no call raised; when it raises \<open>e\<close>, the last call logged is the one that
  raised, it raised \<open>e\<close>, and no call before it raised.
\<close>

definition raised_last :: "error + 'a \<Rightarrow> (call \<times> error option) list \<Rightarrow> bool" where
  "raised_last r evs =
     (case r of
        Inr _ \<Rightarrow> list_all (\<lambda>ev. snd ev = None) evs
      | Inl e \<Rightarrow> evs \<noteq> [] \<and> snd (last evs) = Some e
                 \<and> list_all (\<lambda>ev. snd ev = None) (butlast evs))"

text \<open>
  \<open>logs Q m\<close>: the computation only extends the log, every call it adds satisfies
  \<open>Q\<close>, and its result agrees with the calls it logged.
\<close>

definition logs :: "(call \<Rightarrow> bool) \<Rightarrow> 'a py \<Rightarrow> bool" where
  "logs Q m =
     (\<forall>s. calls (snd (m s)) = calls s @ new_calls m s
          \<and> list_all (\<lambda>ev. Q (fst ev)) (new_calls m s)
          \<and> raised_last (fst (m s)) (new_calls m s))"

text \<open>
  The calls made inside the mapped functions, once per batch, as opposed to the calls
  made by the cells themselves.
\<close>

fun inner :: "call \<Rightarrow> bool" where
  "inner Subscript = True"
| "inner TokenizerCall = True"
| "inner WriteBatch = True"
| "inner (TensorTo d) = True"
| "inner NoGrad = True"
| "inner ModelForward = True"
| "inner TensorCpu = True"
| "inner TensorNumpy = True"
| "inner _ = False"

definition top_level :: "call \<Rightarrow> bool" where
  "top_level c = (\<not> inner c)"

definition inner_calls :: "device \<Rightarrow> call list" where
  "inner_calls d =
     [Subscript, TokenizerCall, WriteBatch, TensorTo d, NoGrad, ModelForward, TensorCpu,
      TensorNumpy]"

text \<open>
  The priority of the devices in words: CUDA when it is available, otherwise MPS when
  it is available, otherwise the CPU.
\<close>

definition priority_device :: "bool \<Rightarrow> bool \<Rightarrow> device" where
  "priority_device cuda mps = (if cuda then Cuda else if mps then Mps else Cpu)"

definition chosen_device :: "lib \<Rightarrow> device" where
  "chosen_device L = priority_device (cuda_is_available L) (mps_is_available L)"

text \<open>The calls of the cells, cell by cell, in the order of the notebook.\<close>

definition setup_calls :: "lib \<Rightarrow> call list" where
  "setup_calls L = (if in_colab L then [PipInstall, PipInstall, DriveMount, ChDir] else [])"

definition device_calls :: "lib \<Rightarrow> call list" where
  "device_calls L =
     (if cuda_is_available L then [CudaIsAvailable, TorchDevice Cuda]
      else if mps_is_available L then [CudaIsAvailable, MpsIsAvailable, TorchDevice Mps]
      else [CudaIsAvailable, MpsIsAvailable, TorchDevice Cpu])"

definition notebook_calls :: "lib \<Rightarrow> call list" where
  "notebook_calls L =
     setup_calls L
     @ [ReadCsv, Display]
     @ [FromPandas, Display]
     @ [GetItem, Display]
     @ [TokenizerFromPretrained, Print]
     @ [DatasetMap, GetItem, Display]
     @ [GetItem, DictGet, ConvertIdsToTokens, Display]
     @ [ManualSeed]
     @ [SetFormat, Display]
     @ (device_calls L @ [Display])
     @ [ModelFromPretrained, ModuleTo (chosen_device L), Display]
     @ [DatasetMap, GetColumn, Display]
     @ [GetColumn, DataFrame, Display]
     @ [RidgeCV, Display]
     @ [GetColumn, SkTrainTestSplit, Display]
     @ [RidgeFit, RidgeScore, Round, Display]
     @ [DatasetTrainTestSplit, Display]
     @ [SeqClsFromPretrained, ModuleTo (chosen_device L), Display]
     @ [TrainingArguments, TrainerInit, TrainerTrain, Display]"

text \<open>
  The calls a run may make: those of the cells, and those made inside the mapped
  functions with the device that the notebook selects.
\<close>

definition allowed :: "lib \<Rightarrow> call \<Rightarrow> bool" where
  "allowed L c = (c \<in> set (notebook_calls L) \<or> c \<in> set (inner_calls (chosen_device L)))"

definition allowed_inner :: "lib \<Rightarrow> call \<Rightarrow> bool" where
  "allowed_inner L c = (c \<in> set (inner_calls (chosen_device L)))"

text \<open>
  \<open>shape sel cs P m\<close>: of the calls that \<open>m\<close> logs, those selected by \<open>sel\<close>
  are the selected ones of \<open>cs\<close>, in this order, when \<open>m\<close> returns (and then its
  value satisfies \<open>P\<close>); when \<open>m\<close> raises, they are an initial part of them.
\<close>

definition shape :: "(call \<Rightarrow> bool) \<Rightarrow> call list \<Rightarrow> ('a \<Rightarrow> bool) \<Rightarrow> 'a py \<Rightarrow> bool" where
  "shape sel cs P m =
     (\<forall>s. case fst (m s) of
            Inr x \<Rightarrow> P x \<and> filter sel (map fst (new_calls m s)) = filter sel cs
          | Inl e \<Rightarrow> prefix (filter sel (map fst (new_calls m s))) (filter sel cs))"

definition runs :: "(call \<Rightarrow> bool) \<Rightarrow> (call \<Rightarrow> bool) \<Rightarrow> call list \<Rightarrow> ('a \<Rightarrow> bool) \<Rightarrow> 'a py \<Rightarrow> bool" where
  "runs Q sel cs P m = (logs Q m \<and> shape sel cs P m)"



text \<open>
  The steps that the specification's summary of the program names, the order it
  names them in, and the step (if any) that a call belongs to. Calls outside the
  seven steps (displays, device selection, formats, splits) are left out.
\<close>

datatype step =
  LoadCsv | Tokenize | LoadModels | ExtractFeatures | Regression | FineTune | PrintResults




text \<open>
  What a batched map returns when the mapped function's value is given by \<open>g\<close>:
  the value of \<open>dataset_map\<close> without the kernel state.
\<close>

definition map_step :: "(batch \<Rightarrow> error + batch) \<Rightarrow> string list option \<Rightarrow> table \<Rightarrow> error + table" where
  "map_step g fmt tb =
     (case g (format_batch fmt tb) of Inl e \<Rightarrow> Inl e | Inr out \<Rightarrow> merge_batch tb out)"

definition map_result :: "lib \<Rightarrow> (batch \<Rightarrow> error + batch) \<Rightarrow> nat \<Rightarrow> dataset \<Rightarrow> error + dataset" where
  "map_result L g bs ds =
     (case raises L DatasetMap of
        Some e \<Rightarrow> Inl e
      | None \<Rightarrow>
          (case mapE (map_step g (format_columns ds)) (batch_tables bs (columns ds)) of
             Inl e \<Rightarrow> Inl e
           | Inr parts \<Rightarrow>
               if parts = [] then Inr ds
               else (case concat_tables parts of
                       Inl e \<Rightarrow> Inl e
                     | Inr t \<Rightarrow> Inr \<lparr>columns = t, format_columns = transmit_format ds t\<rparr>)))"

text \<open>A table is rectangular when all its columns have the same number of rows.\<close>

definition rectangular :: "table \<Rightarrow> bool" where
  "rectangular t = list_all (\<lambda>cx. length (snd cx) = num_rows t) t"



text \<open>The tensor \<open>v.to(d)\<close> of a tensor \<open>v\<close>.\<close>

definition moved :: "device \<Rightarrow> obj \<Rightarrow> obj" where
  "moved d v = (case v of Tensor _ xs \<Rightarrow> Tensor d xs | _ \<Rightarrow> v)"

definition is_tensor :: "obj \<Rightarrow> bool" where
  "is_tensor v = (case v of Tensor _ _ \<Rightarrow> True | _ \<Rightarrow> False)"





text \<open>
  The two halves of \<open>extract_features\<close>: moving one selected entry of the batch to
  the device, and everything after the inputs are built.
\<close>

definition to_entry :: "lib \<Rightarrow> device \<Rightarrow> string \<times> obj \<Rightarrow> (string \<times> obj) py" where
  "to_entry L d = (\<lambda>(k, v). py_bind (tensor_to L d v) (\<lambda>v'. py_return (k, v')))"

definition features_of :: "lib \<Rightarrow> nat \<Rightarrow> batch \<Rightarrow> batch py" where
  "features_of L model inputs =
     py_bind (no_grad L (module_call L model inputs)) (\<lambda>last_hidden_state.
     py_bind (py_call Subscript (index_col0 last_hidden_state)) (\<lambda>cls.
     py_bind (py_call TensorCpu (tensor_cpu cls)) (\<lambda>c.
     py_bind (py_call TensorNumpy (tensor_numpy c)) (\<lambda>arr.
     py_return [(''hidden_state'', arr)]))))"

section \<open>A small instance\<close>

text \<open>
  A toy installation on which the notebook runs to the end: a CSV file of \<open>n\<close>
  rows, a tokenizer that gives every text three token ids, a model whose hidden
  states have \<open>h\<close> components at two positions, CUDA available.
\<close>

definition toy_tokenizer :: tokenizer where
  "toy_tokenizer =
     \<lparr>vocab_size = 30522,
      model_max_length = 512,
      model_input_names = [''input_ids'', ''attention_mask''],
      tokenize = (\<lambda>texts padding truncation.
        Inr [(''input_ids'',
                PyList (map (\<lambda>_. PList [PInt 101, PInt 102, PInt 0]) (obj_rows texts))),
             (''attention_mask'',
                PyList (map (\<lambda>_. PList [PInt 1, PInt 1, PInt 0]) (obj_rows texts)))]),
      convert_ids_to_tokens = (\<lambda>ids. Inr [PStr ''[CLS]'', PStr ''[SEP]'', PStr ''[PAD]''])\<rparr>"

definition toy_table :: "nat \<Rightarrow> table" where
  "toy_table n =
     [(''text'', replicate n (PStr ''Broken leg.'')), (''labels'', replicate n (PFloat 49))]"

text \<open>
  The toy table after tokenization, in the torch format of cell 21.
\<close>

definition toy_dataset :: "nat \<Rightarrow> dataset" where
  "toy_dataset n =
     \<lparr>columns = toy_table n
        @ [(''input_ids'', replicate n (PList [PInt 101, PInt 102, PInt 0])),
           (''attention_mask'', replicate n (PList [PInt 1, PInt 1, PInt 0]))],
      format_columns = Some [''input_ids'', ''attention_mask'', ''labels'']\<rparr>"

definition toy_forward :: "nat \<Rightarrow> real list \<Rightarrow> device \<Rightarrow> bool \<Rightarrow> (string \<rightharpoonup> obj) \<Rightarrow> error + obj" where
  "toy_forward h w d g kwargs =
     (case kwargs ''input_ids'' of
        None \<Rightarrow> Inl TypeError
      | Some ids \<Rightarrow>
          Inr (Tensor d
            (map (\<lambda>_. PList [PList (replicate h (PFloat 0)), PList (replicate h (PFloat 1))])
               (obj_rows ids))))"

definition toy_lib :: "nat \<Rightarrow> nat \<Rightarrow> lib" where
  "toy_lib n h =
     \<lparr>raises = (\<lambda>c. None),
      in_colab = False,
      drive_mount = (\<lambda>p. Inr ()),
      read_csv = (\<lambda>p. Inr (toy_table n)),
      tokenizer_from_pretrained = (\<lambda>ckpt. Inr toy_tokenizer),
      cuda_is_available = True,
      mps_is_available = False,
      to_device = (\<lambda>d. Inr ()),
      model_from_pretrained = (\<lambda>ckpt. Inr [1 / 2, - 1]),
      forward = toy_forward h,
      sk_train_test_split = (\<lambda>X y seed. Inr (take 1 X, drop 1 X, y, y)),
      ridge_fit = (\<lambda>X y. Inr [0]),
      ridge_score = (\<lambda>regr X y. Inr (1 / 2)),
      np_round = (\<lambda>r k. r),
      permutation = (\<lambda>seed k. rev [0 ..< k]),
      seqcls_from_pretrained = (\<lambda>ckpt k. Inr [1 / 2, - 1, 3]),
      training_arguments = (\<lambda>a. Inr ()),
      evaluate_load = (\<lambda>name. Inr 0),
      metric_compute = (\<lambda>metric preds refs. Inr 0),
      trainer_train = (\<lambda>w d a train test cm. Inr (map (\<lambda>x. x + 1) w))\<rparr>"

text \<open>A fresh kernel: nothing logged, gradients enabled, no module loaded.\<close>

definition fresh_kernel :: kernel where
  "fresh_kernel =
     \<lparr>calls = [], grad_enabled = True,
      heap = (\<lambda>a. \<lparr>weights = [], on_device = Cpu\<rparr>), next_free = 0\<rparr>"

text \<open>A kernel in which the feature-extraction model is loaded at address 0, on CUDA.\<close>

definition loaded_kernel :: kernel where
  "loaded_kernel =
     fresh_kernel\<lparr>heap := (heap fresh_kernel)(0 := \<lparr>weights = [1 / 2, - 1], on_device = Cuda\<rparr>),
                  next_free := 1\<rparr>"

text \<open>A batch of two rows in the torch format, as the feature-extraction map passes it.\<close>

definition toy_batch :: batch where
  "toy_batch =
     [(''labels'', Tensor Cpu [PFloat 49, PFloat 34]),
      (''input_ids'', Tensor Cpu [PList [PInt 101, PInt 102, PInt 0], PList [PInt 101, PInt 102, PInt 0]]),
      (''attention_mask'', Tensor Cpu [PList [PInt 1, PInt 1, PInt 0], PList [PInt 1, PInt 1, PInt 0]])]"

text \<open>
  A second batch with the same token ids and attention mask, but other labels, an
  extra \<open>text\<close> entry and another order of the keys.
\<close>

definition other_batch :: batch where
  "other_batch =
     [(''text'', PyList [PStr ''Broken leg.'', PStr ''Bulimia.'']),
      (''attention_mask'', Tensor Cpu [PList [PInt 1, PInt 1, PInt 0], PList [PInt 1, PInt 1, PInt 0]]),
      (''labels'', Tensor Cpu [PFloat 12, PFloat 71]),
      (''input_ids'', Tensor Cpu [PList [PInt 101, PInt 102, PInt 0], PList [PInt 101, PInt 102, PInt 0]])]"

text \<open>Two broken installations: the CSV file is missing; the model cannot be downloaded.\<close>

definition no_file_lib :: lib where
  "no_file_lib = (toy_lib 2 2)\<lparr>read_csv := (\<lambda>p. Inl (Raised ''FileNotFoundError''))\<rparr>"

definition offline_lib :: lib where
  "offline_lib = (toy_lib 2 2)\<lparr>model_from_pretrained := (\<lambda>ckpt. Inl (Raised ''ConnectionError''))\<rparr>"

section \<open>Unfolding sets\<close>

lemmas monad_defs =
  py_bind_def py_return_def py_call_def py_total_def py_raise_in_def outcome_def

lemmas toy_defs =
  no_file_lib_def offline_lib_def toy_lib_def toy_tokenizer_def toy_batch_def other_batch_def loaded_kernel_def fresh_kernel_def
  toy_forward_def toy_table_def

lemmas cell_defs =
  cell_setup_def cell_read_csv_def cell_from_pandas_def cell_show_first_def
  cell_tokenizer_def cell_tokenize_def cell_show_tokens_def cell_seed_def
  cell_set_format_def select_device_def cell_device_def cell_load_model_def
  cell_extract_def cell_embeds_def cell_ridge_def cell_sk_split_def cell_fit_score_def
  cell_split_def cell_load_seqcls_def cell_train_def

lemmas ds_defs =
  dataset_map_def batch_tables_def slice_rows_def format_batch_def merge_batch_def
  num_rows_def transmit_format_def set_format_def row0_def getcol_def getitem_def
  from_pandas_def train_test_split_def select_rows_def append_tables_def

lemmas fn_defs =
  extract_features_def batch_tokenize_def no_grad_def module_call_def tensor_to_def
  index_col0_def tensor_cpu_def tensor_numpy_def alloc_module_def module_to_def

section \<open>The model stays frozen during feature extraction\<close>

lemma keeps_return: "keeps (py_return x)"
  by (simp add: keeps_def py_return_def)

lemma keeps_call: "keeps (py_call c r)"
  by (simp add: keeps_def py_call_def)

lemma keeps_total: "keeps (py_total L c v)"
  by (simp add: py_total_def keeps_call)

lemma keeps_raise_in: "keeps (py_raise_in c r)"
  by (cases r) (simp_all add: py_raise_in_def keeps_call keeps_return)

lemma keeps_bind:
  assumes "keeps m" and "\<And>x. keeps (f x)"
  shows "keeps (py_bind m f)"
proof -
  have "heap (snd (py_bind m f s)) = heap s
      \<and> grad_enabled (snd (py_bind m f s)) = grad_enabled s
      \<and> next_free (snd (py_bind m f s)) = next_free s" for s
  proof -
    obtain r s1 where m: "m s = (r, s1)" by (cases "m s")
    from assms(1) have "heap (snd (m s)) = heap s \<and> grad_enabled (snd (m s)) = grad_enabled s
          \<and> next_free (snd (m s)) = next_free s"
      unfolding keeps_def by blast
    with m have s1: "heap s1 = heap s" "grad_enabled s1 = grad_enabled s"
        "next_free s1 = next_free s"
      by simp_all
    show ?thesis
    proof (cases r)
      case (Inl e)
      with m s1 show ?thesis by (simp add: py_bind_def)
    next
      case (Inr x)
      with m have "py_bind m f s = f x s1" by (simp add: py_bind_def)
      with assms(2)[of x] s1 show ?thesis by (simp add: keeps_def)
    qed
  qed
  then show ?thesis by (simp add: keeps_def)
qed

lemma keeps_mapM: "(\<And>x. keeps (f x)) \<Longrightarrow> keeps (py_mapM f xs)"
  by (induction xs) (auto intro!: keeps_bind keeps_return)

text \<open>
  The \<open>with\<close> block: the body runs with gradients off, and the mode is restored
  afterwards, so the block as a whole keeps the torch state when its body keeps the
  heap.
\<close>

lemma keeps_no_grad:
  assumes "keeps body"
  shows "keeps (no_grad L body)"
proof -
  have "heap (snd (no_grad L body s)) = heap s
      \<and> grad_enabled (snd (no_grad L body s)) = grad_enabled s
      \<and> next_free (snd (no_grad L body s)) = next_free s" for s
  proof (cases "raises L NoGrad")
    case (Some e)
    then show ?thesis by (simp add: no_grad_def py_bind_def py_total_def py_call_def)
  next
    case None
    define s1 where "s1 = s\<lparr>calls := calls s @ [(NoGrad, None)], grad_enabled := False\<rparr>"
    obtain r s2 where b: "body s1 = (r, s2)" by (cases "body s1")
    from assms have "heap (snd (body s1)) = heap s1 \<and> next_free (snd (body s1)) = next_free s1"
      unfolding keeps_def by blast
    with b have "heap s2 = heap s" "next_free s2 = next_free s"
      by (simp_all add: s1_def)
    moreover have "no_grad L body s = (r, s2\<lparr>grad_enabled := grad_enabled s\<rparr>)"
      using b None
      by (simp add: no_grad_def py_bind_def py_total_def py_call_def outcome_def s1_def Let_def)
    ultimately show ?thesis by simp
  qed
  then show ?thesis by (simp add: keeps_def)
qed

lemma keeps_tensor_to: "keeps (tensor_to L d v)"
  by (cases v) (simp_all add: tensor_to_def keeps_call)

lemma keeps_module_call: "keeps (module_call L m inputs)"
  by (simp add: keeps_def module_call_def py_call_def)

lemma keeps_to_entry:
  "keeps (case kv of (k, v) \<Rightarrow> py_bind (tensor_to L dev v) (\<lambda>v'. py_return (k, v')))"
  by (cases kv) (simp add: keeps_bind keeps_tensor_to keeps_return)

lemma keeps_extract_features: "keeps (extract_features L tok dev model b)"
  unfolding extract_features_def
  by (intro keeps_bind keeps_mapM keeps_no_grad keeps_call keeps_return keeps_module_call
        keeps_to_entry)

lemma keeps_dataset_map:
  assumes "\<And>b. keeps (f b)"
  shows "keeps (dataset_map L f bs ds)"
  unfolding dataset_map_def
  apply (rule keeps_bind)
   apply (rule keeps_total)
  apply (rule keeps_bind)
   apply (rule keeps_mapM)
   apply (rule keeps_bind)
    apply (rule assms)
   apply (rule keeps_raise_in)
  apply (simp add: keeps_return keeps_bind keeps_raise_in)
  done

text \<open>
  Claim C3. \<open>extract_features\<close> leaves the pre-trained model frozen. For every
  batch and every state of the kernel, whether the call returns or raises, the heap
  of modules after the call is the heap before it: the parameters of the model (and
  of any other module) are unchanged. The gradient mode that the \<open>with\<close> block
  switches off is back to what it was. The same holds for the whole feature-extraction
  map over the dataset, in batches of 8.
\<close>

theorem extract_features_frozen:
  "heap (snd (extract_features L tok dev model b s)) = heap s
   \<and> weights (heap (snd (extract_features L tok dev model b s)) model)
       = weights (heap s model)
   \<and> grad_enabled (snd (extract_features L tok dev model b s)) = grad_enabled s
   \<and> heap (snd (dataset_map L (extract_features L tok dev model) 8 ds s)) = heap s"
proof -
  have batch: "keeps (extract_features L tok dev model b)"
    by (rule keeps_extract_features)
  have whole: "keeps (dataset_map L (extract_features L tok dev model) 8 ds)"
    by (rule keeps_dataset_map) (rule keeps_extract_features)
  from batch whole show ?thesis
    unfolding keeps_def by simp
qed

text \<open>
  On the toy instance the call returns the two [CLS] vectors, and the parameters of
  the module at address 0 are still \<open>[1/2, -1]\<close>.
\<close>

theorem extract_features_frozen_witness:
  "fst (extract_features (toy_lib 2 2) toy_tokenizer Cuda 0 toy_batch loaded_kernel)
     = Inr [(''hidden_state'', Ndarray [PList [PFloat 0, PFloat 0], PList [PFloat 0, PFloat 0]])]
   \<and> weights (heap (snd (extract_features (toy_lib 2 2) toy_tokenizer Cuda 0 toy_batch
        loaded_kernel)) 0) = [1 / 2, - 1]"
proof -
  have returns:
    "fst (extract_features (toy_lib 2 2) toy_tokenizer Cuda 0 toy_batch loaded_kernel)
       = Inr [(''hidden_state'', Ndarray [PList [PFloat 0, PFloat 0], PList [PFloat 0, PFloat 0]])]"
    by (simp add: fn_defs monad_defs toy_defs numeral_2_eq_2)
  have "weights (heap (snd (extract_features (toy_lib 2 2) toy_tokenizer Cuda 0 toy_batch
          loaded_kernel)) 0) = weights (heap loaded_kernel 0)"
    using extract_features_frozen [of "toy_lib 2 2" toy_tokenizer Cuda 0 toy_batch loaded_kernel]
    by simp
  also have "\<dots> = [1 / 2, - 1]"
    by (simp add: loaded_kernel_def fresh_kernel_def)
  finally show ?thesis using returns by simp
qed

section \<open>The features depend on the model inputs only\<close>

lemma fst_bind:
  "fst (py_bind m f s) = (case fst (m s) of Inl e \<Rightarrow> Inl e | Inr x \<Rightarrow> fst (f x (snd (m s))))"
  by (cases "m s") (auto simp: py_bind_def split: sum.splits)

lemma snd_bind:
  "snd (py_bind m f s) = (case fst (m s) of Inl e \<Rightarrow> snd (m s) | Inr x \<Rightarrow> snd (f x (snd (m s))))"
  by (cases "m s") (auto simp: py_bind_def split: sum.splits)

lemma fst_tensor_to:
  "fst (tensor_to L d v s) =
     (if is_tensor v then (case to_device L d of Inl e \<Rightarrow> Inl e | Inr _ \<Rightarrow> Inr (moved d v))
      else Inl (AttributeError ''to''))"
  by (cases v) (simp_all add: tensor_to_def py_call_def is_tensor_def moved_def split: sum.splits)

lemma fst_to_entry:
  "fst (to_entry L d kv s) =
     (if is_tensor (snd kv) then (case to_device L d of Inl e \<Rightarrow> Inl e | Inr _ \<Rightarrow> Inr (fst kv, moved d (snd kv)))
      else Inl (AttributeError ''to''))"
  by (cases kv) (simp add: to_entry_def fst_bind fst_tensor_to py_return_def split: sum.splits)

lemma to_all_result:
  "fst (py_mapM (to_entry L d) xs s) = Inr ys \<longleftrightarrow>
     list_all (\<lambda>kv. is_tensor (snd kv)) xs \<and> (xs \<noteq> [] \<longrightarrow> to_device L d = Inr ())
     \<and> ys = map (\<lambda>kv. (fst kv, moved d (snd kv))) xs"
proof (induction xs arbitrary: s ys)
  case Nil
  then show ?case by (auto simp: py_return_def)
next
  case (Cons kv xs)
  have step: "fst (py_mapM (to_entry L d) (kv # xs) s) = Inr ys \<longleftrightarrow>
      (\<exists>y ys'. fst (to_entry L d kv s) = Inr y
         \<and> fst (py_mapM (to_entry L d) xs (snd (to_entry L d kv s))) = Inr ys' \<and> ys = y # ys')"
    by (auto simp: fst_bind py_return_def split: sum.splits)
  show ?case
    unfolding step Cons.IH
    by (cases "to_device L d") (auto simp: fst_to_entry)
qed

lemma heap_to_all: "heap (snd (py_mapM (to_entry L d) xs s)) = heap s"
proof -
  have "keeps (py_mapM (to_entry L d) xs)"
    unfolding to_entry_def by (intro keeps_mapM keeps_to_entry)
  then show ?thesis unfolding keeps_def by blast
qed

lemma fst_features_of:
  "fst (features_of L model inputs s) =
     (case raises L NoGrad of Some e \<Rightarrow> Inl e | None \<Rightarrow>
       (case forward L (weights (heap s model)) (on_device (heap s model)) False (map_of inputs) of
          Inl e \<Rightarrow> Inl e
        | Inr h \<Rightarrow> (case index_col0 h of Inl e \<Rightarrow> Inl e
           | Inr cls \<Rightarrow> (case tensor_cpu cls of Inl e \<Rightarrow> Inl e
              | Inr c \<Rightarrow> (case tensor_numpy c of Inl e \<Rightarrow> Inl e
                 | Inr arr \<Rightarrow> Inr [(''hidden_state'', arr)])))))"
  by (simp add: features_of_def no_grad_def module_call_def monad_defs Let_def
      split: sum.splits option.splits prod.splits)

lemma extract_features_alt:
  "extract_features L tok dev model b =
     py_bind (py_mapM (to_entry L dev) (filter (\<lambda>kv. fst kv \<in> set (model_input_names tok)) b))
       (features_of L model)"
  by (simp add: extract_features_def to_entry_def features_of_def[abs_def] case_prod_unfold)

lemma extract_features_returns:
  "fst (extract_features L tok dev model b s) = Inr out \<longleftrightarrow>
     (let xs = filter (\<lambda>kv. fst kv \<in> set (model_input_names tok)) b in
        list_all (\<lambda>kv. is_tensor (snd kv)) xs \<and> (xs \<noteq> [] \<longrightarrow> to_device L dev = Inr ())
        \<and> fst (features_of L model (map (\<lambda>kv. (fst kv, moved dev (snd kv))) xs) s) = Inr out)"
proof -
  let ?xs = "filter (\<lambda>kv. fst kv \<in> set (model_input_names tok)) b"
  let ?m = "py_mapM (to_entry L dev) ?xs"
  let ?ok = "list_all (\<lambda>kv. is_tensor (snd kv)) ?xs \<and> (?xs \<noteq> [] \<longrightarrow> to_device L dev = Inr ())"
  have same: "fst (features_of L model inputs (snd (?m s))) = fst (features_of L model inputs s)"
    for inputs
    by (simp only: fst_features_of heap_to_all)
  show ?thesis
  proof (cases "fst (?m s)")
    case (Inl e)
    have "\<not> ?ok"
    proof
      assume ?ok
      then have "fst (?m s) = Inr (map (\<lambda>kv. (fst kv, moved dev (snd kv))) ?xs)"
        by (simp only: to_all_result) simp
      with Inl show False by simp
    qed
    moreover have "fst (extract_features L tok dev model b s) = Inl e"
      using Inl by (simp add: extract_features_alt fst_bind)
    ultimately show ?thesis by (simp add: Let_def)
  next
    case (Inr ys)
    then have "?ok \<and> ys = map (\<lambda>kv. (fst kv, moved dev (snd kv))) ?xs"
      by (simp only: to_all_result) simp
    then have ok: ?ok and ys: "ys = map (\<lambda>kv. (fst kv, moved dev (snd kv))) ?xs"
      by blast+
    have "fst (extract_features L tok dev model b s) = fst (features_of L model ys s)"
      using Inr by (simp add: extract_features_alt fst_bind same)
    with ok ys show ?thesis by (simp add: Let_def)
  qed
qed

lemma agree_filter:
  assumes "distinct (map fst b1)" "distinct (map fst b2)"
    and "\<forall>k \<in> set names. map_of b1 k = map_of b2 k"
  shows "set (filter (\<lambda>kv. fst kv \<in> set names) b1) = set (filter (\<lambda>kv. fst kv \<in> set names) b2)"
proof -
  have "(k, v) \<in> set (filter (\<lambda>kv. fst kv \<in> set names) b1)
      \<longleftrightarrow> (k, v) \<in> set (filter (\<lambda>kv. fst kv \<in> set names) b2)" for k v
  proof -
    have "(k, v) \<in> set (filter (\<lambda>kv. fst kv \<in> set names) b1)
        \<longleftrightarrow> map_of b1 k = Some v \<and> k \<in> set names"
      using assms(1) by (simp add: map_of_eq_Some_iff)
    moreover have "(k, v) \<in> set (filter (\<lambda>kv. fst kv \<in> set names) b2)
        \<longleftrightarrow> map_of b2 k = Some v \<and> k \<in> set names"
      using assms(2) by (simp add: map_of_eq_Some_iff)
    ultimately show ?thesis using assms(3) by auto
  qed
  then show ?thesis by (intro set_eqI) (simp add: split_paired_all del: set_filter)
qed

lemma extract_features_agree:
  assumes d1: "distinct (map fst b1)" and d2: "distinct (map fst b2)"
    and agree: "\<forall>k \<in> set (model_input_names tok). map_of b1 k = map_of b2 k"
  shows "fst (extract_features L tok dev model b1 s) = Inr out
     \<longleftrightarrow> fst (extract_features L tok dev model b2 s) = Inr out"
proof -
  let ?P = "\<lambda>kv::string \<times> obj. fst kv \<in> set (model_input_names tok)"
  let ?mv = "\<lambda>kv::string \<times> obj. (fst kv, moved dev (snd kv))"
  have sets: "set (filter ?P b1) = set (filter ?P b2)"
    using agree_filter[OF d1 d2 agree] .
  have dist: "distinct (map fst (filter ?P b1))" "distinct (map fst (filter ?P b2))"
    using d1 d2 by (simp_all add: distinct_map_filter)
  have maps: "map_of (filter ?P b1) = map_of (filter ?P b2)"
    using dist sets by (simp only: map_of_inject_set)
  have all: "list_all (\<lambda>kv. is_tensor (snd kv)) (filter ?P b1)
      \<longleftrightarrow> list_all (\<lambda>kv. is_tensor (snd kv)) (filter ?P b2)"
    using sets by (simp add: list_all_iff)
  have ne: "filter ?P b1 \<noteq> [] \<longleftrightarrow> filter ?P b2 \<noteq> []"
    by (simp only: set_empty[symmetric] sets)
  have kw: "map_of (map ?mv (filter ?P b1)) = map_of (map ?mv (filter ?P b2))"
  proof -
    have "map_of (map ?mv xs) = map_option (moved dev) \<circ> map_of xs" for xs :: "(string \<times> obj) list"
      by (induction xs) (auto simp: fun_eq_iff)
    then show ?thesis using maps by simp
  qed
  have feats: "fst (features_of L model (map ?mv (filter ?P b1)) s)
      = fst (features_of L model (map ?mv (filter ?P b2)) s)"
    by (simp only: fst_features_of kw)
  show ?thesis
    unfolding extract_features_returns Let_def all ne feats ..
qed

text \<open>
  Claim C9. The extracted features do not depend on the labels. Take two batches
  (dictionaries, so their keys are distinct) that have the same \<open>input_ids\<close> and
  the same \<open>attention_mask\<close> entry and differ arbitrarily elsewhere (labels, text,
  other keys, the order of the keys). With the tokenizer's model input names being
  \<open>input_ids\<close> and \<open>attention_mask\<close>, \<open>extract_features\<close> returns a value on
  one batch exactly when it returns that same value on the other: only the entries
  kept by the filter reach the model.
\<close>

theorem extract_features_ignores_labels:
  assumes names: "model_input_names tok = [''input_ids'', ''attention_mask'']"
    and d1: "distinct (map fst b1)" and d2: "distinct (map fst b2)"
    and ids: "map_of b1 ''input_ids'' = map_of b2 ''input_ids''"
    and mask: "map_of b1 ''attention_mask'' = map_of b2 ''attention_mask''"
  shows "fst (extract_features L tok dev model b1 s) = Inr out
     \<longleftrightarrow> fst (extract_features L tok dev model b2 s) = Inr out"
proof -
  have "\<forall>k \<in> set (model_input_names tok). map_of b1 k = map_of b2 k"
    using ids mask by (simp add: names)
  with d1 d2 show ?thesis by (rule extract_features_agree)
qed

text \<open>
  The two toy batches carry different labels, and one has a \<open>text\<close> entry; both
  give the same [CLS] vectors.
\<close>

theorem extract_features_ignores_labels_witness:
  "map_of toy_batch ''labels'' \<noteq> map_of other_batch ''labels''
   \<and> fst (extract_features (toy_lib 2 2) toy_tokenizer Cuda 0 toy_batch loaded_kernel)
       = Inr [(''hidden_state'', Ndarray [PList [PFloat 0, PFloat 0], PList [PFloat 0, PFloat 0]])]
   \<and> fst (extract_features (toy_lib 2 2) toy_tokenizer Cuda 0 other_batch loaded_kernel)
       = Inr [(''hidden_state'', Ndarray [PList [PFloat 0, PFloat 0], PList [PFloat 0, PFloat 0]])]"
proof -
  have differ: "map_of toy_batch ''labels'' \<noteq> map_of other_batch ''labels''"
    by (simp add: toy_defs)
  have one:
    "fst (extract_features (toy_lib 2 2) toy_tokenizer Cuda 0 toy_batch loaded_kernel)
       = Inr [(''hidden_state'', Ndarray [PList [PFloat 0, PFloat 0], PList [PFloat 0, PFloat 0]])]"
    by (simp add: fn_defs monad_defs toy_defs numeral_2_eq_2)
  have names: "model_input_names toy_tokenizer = [''input_ids'', ''attention_mask'']"
    by (simp add: toy_defs)
  have d1: "distinct (map fst toy_batch)" and d2: "distinct (map fst other_batch)"
    by (simp_all add: toy_defs)
  have ids: "map_of toy_batch ''input_ids'' = map_of other_batch ''input_ids''"
    and mask: "map_of toy_batch ''attention_mask'' = map_of other_batch ''attention_mask''"
    by (simp_all add: toy_defs)
  from one extract_features_ignores_labels [OF names d1 d2 ids mask]
  have "fst (extract_features (toy_lib 2 2) toy_tokenizer Cuda 0 other_batch loaded_kernel)
       = Inr [(''hidden_state'', Ndarray [PList [PFloat 0, PFloat 0], PList [PFloat 0, PFloat 0]])]"
    by blast
  with differ one show ?thesis by blast
qed

section \<open>The log of a computation\<close>

lemma new_calls_return: "new_calls (py_return x) s = []"
  by (simp add: new_calls_def py_return_def)

lemma new_calls_call: "new_calls (py_call c r) s = [(c, outcome r)]"
  by (simp add: new_calls_def py_call_def)

lemma raised_last_Inl:
  "raised_last (Inl e) evs \<longleftrightarrow>
     evs \<noteq> [] \<and> snd (last evs) = Some e \<and> list_all (\<lambda>ev. snd ev = None) (butlast evs)"
  by (simp add: raised_last_def)

lemma raised_last_Inr: "raised_last (Inr x) evs \<longleftrightarrow> list_all (\<lambda>ev. snd ev = None) evs"
  by (simp add: raised_last_def)

lemma raised_last_single: "raised_last r [(c, outcome r)]"
  by (cases r) (simp_all add: raised_last_def outcome_def)

lemma logs_return: "logs Q (py_return x)"
  unfolding logs_def new_calls_return
  by (simp add: py_return_def raised_last_Inr)

lemma logs_call: "Q c \<Longrightarrow> logs Q (py_call c r)"
  unfolding logs_def new_calls_call
  by (simp add: py_call_def raised_last_single)

lemma logs_total: "Q c \<Longrightarrow> logs Q (py_total L c v)"
  by (simp add: py_total_def logs_call)

lemma logs_raise_in: "Q c \<Longrightarrow> logs Q (py_raise_in c r)"
  by (cases r) (simp_all add: py_raise_in_def logs_call logs_return)

lemma logs_silent: "logs Q (\<lambda>s. (Inr x, s\<lparr>heap := h s\<rparr>))"
  by (simp add: logs_def new_calls_def raised_last_def)

lemma logs_alloc: "logs Q (alloc_module w)"
  by (simp add: logs_def new_calls_def raised_last_def alloc_module_def)

lemma logs_state_call: "Q c \<Longrightarrow> logs Q (\<lambda>s. py_call c (g s) s)"
  by (simp add: logs_def new_calls_def py_call_def raised_last_single)

lemma raised_last_append:
  assumes "list_all (\<lambda>ev. snd ev = None) evs1" and "raised_last r evs2"
  shows "raised_last r (evs1 @ evs2)"
proof (cases r)
  case (Inl e)
  with assms(2) have ne: "evs2 \<noteq> []" and l: "snd (last evs2) = Some e"
    and bl: "list_all (\<lambda>ev. snd ev = None) (butlast evs2)"
    by (simp_all add: raised_last_def)
  from ne have "butlast (evs1 @ evs2) = evs1 @ butlast evs2"
    by (simp add: butlast_append)
  with Inl ne l bl assms(1) show ?thesis by (simp add: raised_last_def)
next
  case (Inr x)
  with assms show ?thesis by (simp add: raised_last_def)
qed

lemma new_callsI: "calls (snd (m s)) = calls s @ evs \<Longrightarrow> new_calls m s = evs"
  by (simp add: new_calls_def)

lemma new_calls_bind:
  assumes m: "calls (snd (m s)) = calls s @ new_calls m s"
    and f: "\<And>x. calls (snd (f x (snd (m s)))) = calls (snd (m s)) @ new_calls (f x) (snd (m s))"
  shows "new_calls (py_bind m f) s =
     (case fst (m s) of Inl e \<Rightarrow> new_calls m s
      | Inr x \<Rightarrow> new_calls m s @ new_calls (f x) (snd (m s)))"
proof (cases "m s")
  case (Pair r s1)
  show ?thesis
  proof (cases r)
    case (Inl e)
    with Pair show ?thesis by (simp add: new_calls_def py_bind_def)
  next
    case (Inr x)
    with Pair have b: "py_bind m f s = f x s1" by (simp add: py_bind_def)
    from f[of x] m Pair have "calls (snd (f x s1)) = calls s @ new_calls m s @ new_calls (f x) s1"
      by simp
    with b have "new_calls (py_bind m f) s = new_calls m s @ new_calls (f x) s1"
      by (intro new_callsI) simp
    with Pair Inr show ?thesis by simp
  qed
qed

lemma logs_bind:
  assumes m: "logs Q m" and f: "\<And>x. logs Q (f x)"
  shows "logs Q (py_bind m f)"
proof -
  have "calls (snd (py_bind m f s)) = calls s @ new_calls (py_bind m f) s
      \<and> list_all (\<lambda>ev. Q (fst ev)) (new_calls (py_bind m f) s)
      \<and> raised_last (fst (py_bind m f s)) (new_calls (py_bind m f) s)" for s
  proof -
    from m have ms: "calls (snd (m s)) = calls s @ new_calls m s"
      "list_all (\<lambda>ev. Q (fst ev)) (new_calls m s)" "raised_last (fst (m s)) (new_calls m s)"
      unfolding logs_def by blast+
    have fs: "calls (snd (f x s')) = calls s' @ new_calls (f x) s'"
      "list_all (\<lambda>ev. Q (fst ev)) (new_calls (f x) s')"
      "raised_last (fst (f x s')) (new_calls (f x) s')" for x s'
      using f[of x] unfolding logs_def by blast+
    have nc: "new_calls (py_bind m f) s =
       (case fst (m s) of Inl e \<Rightarrow> new_calls m s
        | Inr x \<Rightarrow> new_calls m s @ new_calls (f x) (snd (m s)))"
      by (rule new_calls_bind) (rule ms(1), rule fs(1))
    obtain r s1 where p: "m s = (r, s1)" by (cases "m s")
    show ?thesis
    proof (cases r)
      case (Inl e)
      with p ms nc show ?thesis by (simp add: py_bind_def raised_last_Inl)
    next
      case (Inr x)
      with p have b: "py_bind m f s = f x s1" by (simp add: py_bind_def)
      from Inr p ms(3) have none: "list_all (\<lambda>ev. snd ev = None) (new_calls m s)"
        by (simp add: raised_last_Inr)
      from Inr p nc have nc': "new_calls (py_bind m f) s = new_calls m s @ new_calls (f x) s1"
        by simp
      have "raised_last (fst (f x s1)) (new_calls m s @ new_calls (f x) s1)"
        by (rule raised_last_append) (rule none, rule fs(3))
      moreover have "calls (snd (f x s1)) = calls s @ new_calls m s @ new_calls (f x) s1"
        using fs(1)[of x s1] ms(1) p by simp
      ultimately show ?thesis using b nc' ms(2) fs(2)[of x s1] by simp
    qed
  qed
  then show ?thesis unfolding logs_def by blast
qed

lemma logs_mapM: "(\<And>x. logs Q (f x)) \<Longrightarrow> logs Q (py_mapM f xs)"
  by (induction xs) (auto intro!: logs_bind logs_return)

lemma logs_mono: "logs Q m \<Longrightarrow> (\<And>c. Q c \<Longrightarrow> Q' c) \<Longrightarrow> logs Q' m"
  unfolding logs_def by (auto simp: list_all_iff)

lemma logs_if: "logs Q a \<Longrightarrow> logs Q b \<Longrightarrow> logs Q (if c then a else b)"
  by simp

lemma logs_no_grad:
  assumes "Q NoGrad" and body: "logs Q body"
  shows "logs Q (no_grad L body)"
proof -
  define wrapped where "wrapped = (\<lambda>s. let prev = grad_enabled s;
        (r, s') = body (s\<lparr>grad_enabled := False\<rparr>)
       in (r, s'\<lparr>grad_enabled := prev\<rparr>))"
  have "calls (snd (wrapped s)) = calls s @ new_calls wrapped s
      \<and> list_all (\<lambda>ev. Q (fst ev)) (new_calls wrapped s)
      \<and> raised_last (fst (wrapped s)) (new_calls wrapped s)" for s
  proof -
    define s1 where "s1 = s\<lparr>grad_enabled := False\<rparr>"
    obtain r s2 where b: "body s1 = (r, s2)" by (cases "body s1")
    from body have "calls (snd (body s1)) = calls s1 @ new_calls body s1"
      "list_all (\<lambda>ev. Q (fst ev)) (new_calls body s1)"
      "raised_last (fst (body s1)) (new_calls body s1)"
      unfolding logs_def by blast+
    with b have c: "calls s2 = calls s @ new_calls body s1"
      and q: "list_all (\<lambda>ev. Q (fst ev)) (new_calls body s1)"
      and rl: "raised_last r (new_calls body s1)"
      by (simp_all add: s1_def)
    have w: "wrapped s = (r, s2\<lparr>grad_enabled := grad_enabled s\<rparr>)"
      using b by (simp add: wrapped_def s1_def Let_def)
    have "new_calls wrapped s = new_calls body s1"
      by (rule new_callsI) (simp add: w c)
    with w c q rl show ?thesis by simp
  qed
  then have "logs Q wrapped" unfolding logs_def by blast
  moreover have "no_grad L body = py_bind (py_total L NoGrad ()) (\<lambda>_. wrapped)"
    by (simp add: no_grad_def wrapped_def)
  ultimately show ?thesis
    using assms(1) by (simp add: logs_bind logs_total)
qed

lemma logs_tensor_to: "Q (TensorTo d) \<Longrightarrow> logs Q (tensor_to L d v)"
  by (cases v) (simp_all add: tensor_to_def logs_call)

lemma logs_module_call: "Q ModelForward \<Longrightarrow> logs Q (module_call L m inputs)"
  unfolding module_call_def by (rule logs_state_call)

lemma logs_to_entry: "Q (TensorTo d) \<Longrightarrow> logs Q (to_entry L d kv)"
  by (cases kv) (simp add: to_entry_def logs_bind logs_tensor_to logs_return)

lemma logs_features_of:
  assumes "Q NoGrad" "Q ModelForward" "Q Subscript" "Q TensorCpu" "Q TensorNumpy"
  shows "logs Q (features_of L model inputs)"
  unfolding features_of_def
  by (intro logs_bind logs_no_grad logs_module_call logs_call logs_return assms)

lemma logs_extract_features:
  assumes "Q (TensorTo dev)" "Q NoGrad" "Q ModelForward" "Q Subscript" "Q TensorCpu" "Q TensorNumpy"
  shows "logs Q (extract_features L tok dev model b)"
  unfolding extract_features_alt
  by (intro logs_bind logs_mapM logs_to_entry logs_features_of assms)

lemma logs_batch_tokenize:
  assumes "Q Subscript" "Q TokenizerCall"
  shows "logs Q (batch_tokenize tok b)"
  unfolding batch_tokenize_def
  by (intro logs_bind logs_call assms)

lemma logs_dataset_map:
  assumes "Q DatasetMap" and "Q WriteBatch" and "\<And>b. logs Q (f b)"
  shows "logs Q (dataset_map L f bs ds)"
  unfolding dataset_map_def
  by (intro logs_bind logs_mapM logs_total logs_raise_in logs_if logs_return assms)

section \<open>The shape of the log\<close>

lemma runs_point:
  "runs Q sel cs P m \<longleftrightarrow>
     (\<forall>s. calls (snd (m s)) = calls s @ new_calls m s
          \<and> list_all (\<lambda>ev. Q (fst ev)) (new_calls m s)
          \<and> raised_last (fst (m s)) (new_calls m s)
          \<and> (case fst (m s) of
                Inr x \<Rightarrow> P x \<and> filter sel (map fst (new_calls m s)) = filter sel cs
              | Inl e \<Rightarrow> prefix (filter sel (map fst (new_calls m s))) (filter sel cs)))"
  unfolding runs_def logs_def shape_def by blast

lemma runs_logs: "runs Q sel cs P m \<Longrightarrow> logs Q m"
  by (simp add: runs_def)

lemma runs_return: "P x \<Longrightarrow> runs Q sel [] P (py_return x)"
proof -
  assume "P x"
  then have "shape sel [] P (py_return x)"
    unfolding shape_def new_calls_return by (simp add: py_return_def)
  then show ?thesis by (simp add: runs_def logs_return)
qed

lemma runs_call:
  assumes "Q c" and "\<And>x. r = Inr x \<Longrightarrow> P x"
  shows "runs Q sel [c] P (py_call c r)"
proof -
  have "shape sel [c] P (py_call c r)"
    unfolding shape_def new_calls_call using assms(2)
    by (cases r) (simp_all add: py_call_def)
  with assms(1) show ?thesis by (simp add: runs_def logs_call)
qed

lemma runs_total: "Q c \<Longrightarrow> P v \<Longrightarrow> runs Q sel [c] P (py_total L c v)"
  unfolding py_total_def by (rule runs_call) (auto split: option.splits)

lemma runs_bind:
  assumes m: "runs Q sel c1 P m" and f: "\<And>x. P x \<Longrightarrow> runs Q sel c2 R (f x)"
  shows "runs Q sel (c1 @ c2) R (py_bind m f)"
proof -
  let ?b = "py_bind m f"
  have "calls (snd (?b s)) = calls s @ new_calls ?b s
      \<and> list_all (\<lambda>ev. Q (fst ev)) (new_calls ?b s)
      \<and> raised_last (fst (?b s)) (new_calls ?b s)
      \<and> (case fst (?b s) of
            Inr x \<Rightarrow> R x \<and> filter sel (map fst (new_calls ?b s)) = filter sel (c1 @ c2)
          | Inl e \<Rightarrow> prefix (filter sel (map fst (new_calls ?b s))) (filter sel (c1 @ c2)))" for s
  proof -
    from m have ms: "calls (snd (m s)) = calls s @ new_calls m s"
      "list_all (\<lambda>ev. Q (fst ev)) (new_calls m s)" "raised_last (fst (m s)) (new_calls m s)"
      and msh: "case fst (m s) of
            Inr x \<Rightarrow> P x \<and> filter sel (map fst (new_calls m s)) = filter sel c1
          | Inl e \<Rightarrow> prefix (filter sel (map fst (new_calls m s))) (filter sel c1)"
      unfolding runs_point by blast+
    obtain r s1 where p: "m s = (r, s1)" by (cases "m s")
    show ?thesis
    proof (cases r)
      case (Inl e)
      with p have b: "?b s = (Inl e, s1)" by (simp add: py_bind_def)
      with p have nc: "new_calls ?b s = new_calls m s" by (simp add: new_calls_def)
      from msh p Inl have "prefix (filter sel (map fst (new_calls m s))) (filter sel c1)"
        by simp
      then have "prefix (filter sel (map fst (new_calls m s))) (filter sel (c1 @ c2))"
        by (simp add: prefix_prefix)
      with b nc ms p Inl show ?thesis by (simp add: raised_last_Inl)
    next
      case (Inr x)
      with p have b: "?b s = f x s1" by (simp add: py_bind_def)
      from msh p Inr have px: "P x"
        and tr: "filter sel (map fst (new_calls m s)) = filter sel c1" by simp_all
      from f[OF px] have fs: "calls (snd (f x s1)) = calls s1 @ new_calls (f x) s1"
        "list_all (\<lambda>ev. Q (fst ev)) (new_calls (f x) s1)"
        "raised_last (fst (f x s1)) (new_calls (f x) s1)"
        and fsh: "case fst (f x s1) of
            Inr y \<Rightarrow> R y \<and> filter sel (map fst (new_calls (f x) s1)) = filter sel c2
          | Inl e \<Rightarrow> prefix (filter sel (map fst (new_calls (f x) s1))) (filter sel c2)"
        unfolding runs_point by blast+
      from ms(1) p have c1: "calls s1 = calls s @ new_calls m s" by simp
      with fs(1) have call: "calls (snd (f x s1)) = calls s @ (new_calls m s @ new_calls (f x) s1)"
        by simp
      with b have nc: "new_calls ?b s = new_calls m s @ new_calls (f x) s1"
        by (intro new_callsI) simp
      from ms(3) p Inr have none: "list_all (\<lambda>ev. snd ev = None) (new_calls m s)"
        by (simp add: raised_last_Inr)
      have rl: "raised_last (fst (f x s1)) (new_calls m s @ new_calls (f x) s1)"
        by (rule raised_last_append) (rule none, rule fs(3))
      have sh: "case fst (f x s1) of
            Inr y \<Rightarrow> R y \<and> filter sel (map fst (new_calls m s @ new_calls (f x) s1)) = filter sel (c1 @ c2)
          | Inl e \<Rightarrow> prefix (filter sel (map fst (new_calls m s @ new_calls (f x) s1))) (filter sel (c1 @ c2))"
        using fsh tr by (cases "fst (f x s1)") simp_all
      from b nc call rl sh ms(2) fs(2) show ?thesis
        by (cases "fst (f x s1)") simp_all
    qed
  qed
  then show ?thesis unfolding runs_point by blast
qed

lemma runs_weaken: "runs Q sel cs P m \<Longrightarrow> (\<And>x. P x \<Longrightarrow> P' x) \<Longrightarrow> runs Q sel cs P' m"
  unfolding runs_point by (auto split: sum.splits)

text \<open>A computation all of whose calls are unselected.\<close>

lemma runs_hidden:
  assumes l: "logs Qi m" and hide: "\<And>c. Qi c \<Longrightarrow> \<not> sel c" and sub: "\<And>c. Qi c \<Longrightarrow> Q c"
  shows "runs Q sel [] (\<lambda>_. True) m"
proof -
  have "filter sel (map fst (new_calls m s)) = []" for s
  proof -
    from l have "list_all (\<lambda>ev. Qi (fst ev)) (new_calls m s)" unfolding logs_def by blast
    then show ?thesis using hide by (auto simp: list_all_iff filter_empty_conv)
  qed
  then have "shape sel [] (\<lambda>_. True) m"
    unfolding shape_def by (auto split: sum.splits)
  moreover have "logs Q m" using l sub by (rule logs_mono)
  ultimately show ?thesis by (simp add: runs_def)
qed

section \<open>The calls of the cells\<close>

lemma runs_bind_cons:
  assumes "runs Q sel [c] P m" and "\<And>x. P x \<Longrightarrow> runs Q sel cs R (f x)"
  shows "runs Q sel (c # cs) R (py_bind m f)"
  using runs_bind[OF assms] by simp

lemma runs_bind_nil:
  assumes "runs Q sel [] P m" and "\<And>x. P x \<Longrightarrow> runs Q sel cs R (f x)"
  shows "runs Q sel cs R (py_bind m f)"
  using runs_bind[OF assms] by simp

lemma runs_call_any: "Q c \<Longrightarrow> runs Q sel [c] (\<lambda>_. True) (py_call c r)"
  by (rule runs_call) simp_all

lemma runs_call_bind:
  assumes "Q c" and "\<And>x. runs Q sel cs R (f x)"
  shows "runs Q sel (c # cs) R (py_bind (py_call c r) f)"
  by (rule runs_bind_cons[OF runs_call_any]) (rule assms)+

lemma runs_total_bind:
  assumes "Q c" and "runs Q sel cs R (f v)"
  shows "runs Q sel (c # cs) R (py_bind (py_total L c v) f)"
  by (rule runs_bind_cons[where P = "\<lambda>x. x = v"]) (rule runs_total, rule assms(1), rule refl, simp add: assms(2))

lemma runs_return_bind:
  assumes "runs Q sel cs R (f x)"
  shows "runs Q sel cs R (py_bind (py_return x) f)"
  by (rule runs_bind_nil[where P = "\<lambda>y. y = x"]) (rule runs_return, rule refl, simp add: assms)

lemma runs_silent: "runs Q sel [] (\<lambda>y. y = x) (\<lambda>s. (Inr x, s\<lparr>heap := h s\<rparr>))"
  unfolding runs_point by (simp add: new_calls_def raised_last_Inr)

lemma runs_silent_bind:
  assumes "runs Q sel cs R (f x)"
  shows "runs Q sel cs R (py_bind (\<lambda>s. (Inr x, s\<lparr>heap := h s\<rparr>)) f)"
  by (rule runs_bind_nil[OF runs_silent]) (simp add: assms)

lemma runs_alloc: "runs Q sel [] (\<lambda>_. True) (alloc_module w)"
  unfolding runs_point by (simp add: new_calls_def raised_last_Inr alloc_module_def)

lemma runs_alloc_bind:
  assumes "\<And>x. runs Q sel cs R (f x)"
  shows "runs Q sel cs R (py_bind (alloc_module w) f)"
  by (rule runs_bind_nil[OF runs_alloc]) (rule assms)

lemma runs_module_to_bind:
  assumes "Q (ModuleTo d)" and "runs Q sel cs R (f m)"
  shows "runs Q sel (ModuleTo d # cs) R (py_bind (module_to L d m) f)"
proof -
  have "runs Q sel [ModuleTo d] (\<lambda>y. y = m) (module_to L d m)"
    unfolding module_to_def
    using runs_call_bind[of Q "ModuleTo d" sel "[]" "\<lambda>y. y = m"
        "\<lambda>_ s. (Inr m, s\<lparr>heap := (heap s)(m := (heap s m)\<lparr>on_device := d\<rparr>)\<rparr>)" "to_device L d"]
      runs_silent[of Q sel m "\<lambda>s. (heap s)(m := (heap s m)\<lparr>on_device := d\<rparr>)"] assms(1)
    by simp
  then show ?thesis by (rule runs_bind_cons) (simp add: assms(2))
qed

lemma runs_state_call_bind:
  assumes "Q c" and "\<And>x. runs Q sel cs R (f x)"
  shows "runs Q sel (c # cs) R (py_bind (\<lambda>s. py_call c (g s) s) f)"
proof -
  have "runs Q sel [c] (\<lambda>_. True) (\<lambda>s. py_call c (g s) s)"
    unfolding runs_point using assms(1)
    by (auto simp: new_calls_def py_call_def raised_last_single split: sum.splits)
  then show ?thesis by (rule runs_bind_cons) (rule assms(2))
qed

lemma runs_if: "runs Q sel cs P a \<Longrightarrow> runs Q sel cs P b \<Longrightarrow> runs Q sel cs P (if c then a else b)"
  by simp

lemma runs_dataset_map:
  assumes q: "Q DatasetMap" and g: "\<And>b. logs Qi (g b)" and w: "Qi WriteBatch"
    and hide: "\<And>c. Qi c \<Longrightarrow> \<not> sel c" and sub: "\<And>c. Qi c \<Longrightarrow> Q c"
  shows "runs Q sel [DatasetMap] (\<lambda>_. True) (dataset_map L g bs ds)"
proof -
  let ?rest = "py_bind
       (py_mapM
          (\<lambda>tb. py_bind (g (format_batch (format_columns ds) tb)) (\<lambda>out.
                 py_raise_in WriteBatch (merge_batch tb out)))
          (batch_tables bs (columns ds)))
       (\<lambda>parts.
     if parts = [] then py_return ds
     else py_bind (py_raise_in WriteBatch (concat_tables parts)) (\<lambda>t.
          py_return \<lparr>columns = t, format_columns = transmit_format ds t\<rparr>))"
  have "logs Qi ?rest"
    by (intro logs_bind logs_mapM logs_raise_in logs_if logs_return g w)
  then have "runs Q sel [] (\<lambda>_. True) ?rest"
    using hide sub by (rule runs_hidden)
  then show ?thesis
    unfolding dataset_map_def by (intro runs_total_bind q)
qed

lemma runs_dataset_map_bind:
  assumes "Q DatasetMap" and "\<And>b. logs Qi (g b)" and "Qi WriteBatch"
    and "\<And>c. Qi c \<Longrightarrow> \<not> sel c" and "\<And>c. Qi c \<Longrightarrow> Q c"
    and "\<And>x. runs Q sel cs R (f x)"
  shows "runs Q sel (DatasetMap # cs) R (py_bind (dataset_map L g bs ds) f)"
proof -
  have "runs Q sel [DatasetMap] (\<lambda>_. True) (dataset_map L g bs ds)"
    using assms(1-5) by (rule runs_dataset_map)
  then show ?thesis by (rule runs_bind_cons) (rule assms(6))
qed

lemma runs_total_any: "Q c \<Longrightarrow> runs Q sel [c] (\<lambda>_. True) (py_total L c v)"
  by (rule runs_total) simp_all

lemma runs_return_any: "runs Q sel [] (\<lambda>_. True) (py_return x)"
  by (rule runs_return) simp

lemmas basic_steps = runs_call_bind runs_total_bind runs_call_any runs_total_any runs_return_any

lemmas allowed_defs =
  allowed_def allowed_inner_def notebook_calls_def inner_calls_def setup_calls_def
  device_calls_def chosen_device_def priority_device_def

lemma runs_cell_setup: "runs (allowed L) sel (setup_calls L) (\<lambda>_. True) (cell_setup L)"
proof (cases "in_colab L")
  case True
  have "runs (allowed L) sel [PipInstall, PipInstall, DriveMount, ChDir] (\<lambda>_. True)
     (py_bind (py_call PipInstall (Inr ())) (\<lambda>_.
        py_bind (py_call PipInstall (Inr ())) (\<lambda>_.
        py_bind (py_call DriveMount (drive_mount L ''/content/drive'')) (\<lambda>_.
        py_call ChDir (Inr ())))))"
    by (intro basic_steps) (simp_all add: allowed_defs True)
  with True show ?thesis
    by (simp add: cell_setup_def setup_calls_def)
next
  case False
  then show ?thesis
    by (simp add: cell_setup_def setup_calls_def runs_return)
qed

lemma runs_cell_read_csv: "runs (allowed L) sel [ReadCsv, Display] (\<lambda>_. True) (cell_read_csv L)"
  unfolding cell_read_csv_def
  by (intro basic_steps) (simp_all add: allowed_defs)

lemma runs_cell_from_pandas:
  "runs (allowed L) sel [FromPandas, Display] (\<lambda>_. True) (cell_from_pandas L df)"
  unfolding cell_from_pandas_def
  by (intro basic_steps) (simp_all add: allowed_defs)

lemma runs_cell_show_first:
  "runs (allowed L) sel [GetItem, Display] (\<lambda>_. True) (cell_show_first L dat)"
  unfolding cell_show_first_def
  by (intro basic_steps) (simp_all add: allowed_defs)

lemma runs_cell_tokenizer:
  "runs (allowed L) sel [TokenizerFromPretrained, Print] (\<lambda>_. True) (cell_tokenizer L)"
  unfolding cell_tokenizer_def
  by (intro basic_steps) (simp_all add: allowed_defs)

lemma inner_allowed: "allowed_inner L c \<Longrightarrow> inner c"
  by (auto simp: allowed_inner_def inner_calls_def)

lemma allowed_inner_sub: "allowed_inner L c \<Longrightarrow> allowed L c"
  by (simp add: allowed_inner_def allowed_def)

lemma logs_inner_batch_tokenize: "logs (allowed_inner L) (batch_tokenize tok b)"
  by (rule logs_batch_tokenize) (simp_all add: allowed_defs)

lemma logs_inner_extract_features:
  "logs (allowed_inner L) (extract_features L tok (chosen_device L) model b)"
  by (rule logs_extract_features) (simp_all add: allowed_inner_def inner_calls_def)

lemma runs_cell_tokenize:
  assumes hide: "\<And>c. inner c \<Longrightarrow> \<not> sel c"
  shows "runs (allowed L) sel [DatasetMap, GetItem, Display] (\<lambda>_. True) (cell_tokenize L tok dat)"
  unfolding cell_tokenize_def
proof (rule runs_dataset_map_bind[where Qi = "allowed_inner L"])
  show "allowed L DatasetMap" by (simp add: allowed_defs)
  show "logs (allowed_inner L) (batch_tokenize tok b)" for b
    by (rule logs_inner_batch_tokenize)
  show "allowed_inner L WriteBatch" by (simp add: allowed_defs)
  show "\<not> sel c" if "allowed_inner L c" for c
    using that by (intro hide inner_allowed)
  show "allowed L c" if "allowed_inner L c" for c
    using that by (rule allowed_inner_sub)
  show "runs (allowed L) sel [GetItem, Display] (\<lambda>_. True)
      (py_bind (py_call GetItem (row0 x)) (\<lambda>_. py_bind (py_total L Display ()) (\<lambda>_. py_return x)))" for x
    by (intro basic_steps) (simp_all add: allowed_defs)
qed

lemma runs_cell_show_tokens:
  "runs (allowed L) sel [GetItem, DictGet, ConvertIdsToTokens, Display] (\<lambda>_. True)
     (cell_show_tokens L tok dat)"
  unfolding cell_show_tokens_def
  by (intro basic_steps runs_return_bind) (simp_all add: allowed_defs)

lemma runs_cell_seed: "runs (allowed L) sel [ManualSeed] (\<lambda>_. True) (cell_seed L)"
  unfolding cell_seed_def
  by (intro basic_steps) (simp_all add: allowed_defs)

lemma runs_cell_set_format:
  "runs (allowed L) sel [SetFormat, Display] (\<lambda>_. True) (cell_set_format L dat)"
  unfolding cell_set_format_def
  by (intro basic_steps) (simp_all add: allowed_defs)

lemma runs_select_device:
  "runs (allowed L) sel (device_calls L) (\<lambda>d. d = chosen_device L) (select_device L)"
proof (cases "cuda_is_available L")
  case True
  then have l: "device_calls L = [CudaIsAvailable, TorchDevice Cuda]" "chosen_device L = Cuda"
    by (simp_all add: device_calls_def chosen_device_def priority_device_def)
  show ?thesis
    unfolding select_device_def l
    apply (rule runs_total_bind)
     apply (simp add: allowed_defs True)
    apply (simp add: True)
    apply (rule runs_total)
     apply (simp_all add: allowed_defs True)
    done
next
  case False
  show ?thesis
  proof (cases "mps_is_available L")
    case True
    with False have l: "device_calls L = [CudaIsAvailable, MpsIsAvailable, TorchDevice Mps]"
      "chosen_device L = Mps"
      by (simp_all add: device_calls_def chosen_device_def priority_device_def)
    show ?thesis
      unfolding select_device_def l
      apply (rule runs_total_bind)
       apply (simp add: allowed_defs True False)
      apply (simp add: False)
      apply (rule runs_total_bind)
       apply (simp add: allowed_defs True False)
      apply (simp add: True)
      apply (rule runs_total)
       apply (simp_all add: allowed_defs True False)
      done
  next
    case nomps: False
    with False have l: "device_calls L = [CudaIsAvailable, MpsIsAvailable, TorchDevice Cpu]"
      "chosen_device L = Cpu"
      by (simp_all add: device_calls_def chosen_device_def priority_device_def)
    show ?thesis
      unfolding select_device_def l
      apply (rule runs_total_bind)
       apply (simp add: allowed_defs nomps False)
      apply (simp add: False)
      apply (rule runs_total_bind)
       apply (simp add: allowed_defs nomps False)
      apply (simp add: nomps)
      apply (rule runs_total)
       apply (simp_all add: allowed_defs nomps False)
      done
  qed
qed

lemma runs_cell_device:
  "runs (allowed L) sel (device_calls L @ [Display]) (\<lambda>d. d = chosen_device L) (cell_device L)"
  unfolding cell_device_def
proof (rule runs_bind[OF runs_select_device])
  fix d assume "d = chosen_device L"
  then show "runs (allowed L) sel [Display] (\<lambda>d. d = chosen_device L)
      (py_bind (py_total L Display ()) (\<lambda>_. py_return d))"
    by (intro runs_total_bind runs_return) (simp_all add: allowed_defs)
qed

lemma runs_cell_load_model:
  assumes "d = chosen_device L"
  shows "runs (allowed L) sel [ModelFromPretrained, ModuleTo (chosen_device L), Display] (\<lambda>_. True)
     (cell_load_model L d)"
  unfolding cell_load_model_def assms
  by (intro basic_steps runs_alloc_bind runs_module_to_bind) (simp_all add: allowed_def notebook_calls_def)

lemma runs_cell_extract:
  assumes hide: "\<And>c. inner c \<Longrightarrow> \<not> sel c" and d: "d = chosen_device L"
  shows "runs (allowed L) sel [DatasetMap, GetColumn, Display] (\<lambda>_. True)
     (cell_extract L tok d model dat)"
  unfolding cell_extract_def d
proof (rule runs_dataset_map_bind[where Qi = "allowed_inner L"])
  show "allowed L DatasetMap" by (simp add: allowed_defs)
  show "logs (allowed_inner L) (extract_features L tok (chosen_device L) model b)" for b
    by (rule logs_inner_extract_features)
  show "allowed_inner L WriteBatch" by (simp add: allowed_defs)
  show "\<not> sel c" if "allowed_inner L c" for c
    using that by (intro hide inner_allowed)
  show "allowed L c" if "allowed_inner L c" for c
    using that by (rule allowed_inner_sub)
  show "runs (allowed L) sel [GetColumn, Display] (\<lambda>_. True)
      (py_bind (py_call GetColumn (getcol x ''hidden_state'')) (\<lambda>_.
         py_bind (py_total L Display ()) (\<lambda>_. py_return x)))" for x
    by (intro basic_steps) (simp_all add: allowed_defs)
qed

lemma runs_cell_embeds:
  "runs (allowed L) sel [GetColumn, DataFrame, Display] (\<lambda>_. True) (cell_embeds L dat)"
  unfolding cell_embeds_def
  by (intro basic_steps) (simp_all add: allowed_defs)

lemma runs_cell_ridge: "runs (allowed L) sel [RidgeCV, Display] (\<lambda>_. True) (cell_ridge L)"
  unfolding cell_ridge_def
  by (intro basic_steps) (simp_all add: allowed_defs)

lemma runs_cell_sk_split:
  "runs (allowed L) sel [GetColumn, SkTrainTestSplit, Display] (\<lambda>_. True)
     (cell_sk_split L embeds dat)"
  unfolding cell_sk_split_def
  by (intro basic_steps) (simp_all add: allowed_defs)

lemma runs_cell_fit_score:
  "runs (allowed L) sel [RidgeFit, RidgeScore, Round, Display] (\<lambda>_. True) (cell_fit_score L parts)"
proof -
  obtain a b c d where p: "parts = (a, b, c, d)" by (cases parts)
  show ?thesis
    unfolding cell_fit_score_def p prod.case
    by (intro basic_steps) (simp_all add: allowed_defs)
qed

lemma runs_cell_split:
  "runs (allowed L) sel [DatasetTrainTestSplit, Display] (\<lambda>_. True) (cell_split L dat)"
  unfolding cell_split_def
  by (intro basic_steps) (simp_all add: allowed_defs)

lemma runs_cell_load_seqcls:
  assumes "d = chosen_device L"
  shows "runs (allowed L) sel [SeqClsFromPretrained, ModuleTo (chosen_device L), Display] (\<lambda>_. True)
     (cell_load_seqcls L d)"
  unfolding cell_load_seqcls_def assms
  by (intro basic_steps runs_alloc_bind runs_module_to_bind) (simp_all add: allowed_def notebook_calls_def)

lemma runs_cell_train:
  "runs (allowed L) sel [TrainingArguments, TrainerInit, TrainerTrain, Display] (\<lambda>_. True)
     (cell_train L model dd)"
  unfolding cell_train_def
  by (intro basic_steps runs_state_call_bind runs_silent_bind) (simp_all add: allowed_defs)

lemma run_all_runs:
  assumes hide: "\<And>c. inner c \<Longrightarrow> \<not> sel c"
  shows "runs (allowed L) sel (notebook_calls L) (\<lambda>_. True) (run_all L)"
  unfolding run_all_def notebook_calls_def
  apply (rule runs_bind, rule runs_cell_setup)
  apply (rule runs_bind, rule runs_cell_read_csv)
  apply (rule runs_bind, rule runs_cell_from_pandas)
  apply (rule runs_bind, rule runs_cell_show_first)
  apply (rule runs_bind, rule runs_cell_tokenizer)
  apply (rule runs_bind, rule runs_cell_tokenize, erule hide)
  apply (rule runs_bind, rule runs_cell_show_tokens)
  apply (rule runs_bind, rule runs_cell_seed)
  apply (rule runs_bind, rule runs_cell_set_format)
  apply (rule runs_bind, rule runs_cell_device)
  apply (rule runs_bind, rule runs_cell_load_model, assumption)
  apply (rule runs_bind, rule runs_cell_extract, erule hide, assumption)
  apply (rule runs_bind, rule runs_cell_embeds)
  apply (rule runs_bind, rule runs_cell_ridge)
  apply (rule runs_bind, rule runs_cell_sk_split)
  apply (rule runs_bind, rule runs_cell_fit_score)
  apply (rule runs_bind, rule runs_cell_split)
  apply (rule runs_bind, rule runs_cell_load_seqcls, assumption)
  apply (rule runs_cell_train)
  done

section \<open>Exceptions propagate\<close>


lemma new_calls_fresh: "new_calls m fresh_kernel = calls (snd (m fresh_kernel))"
  by (simp add: new_calls_def fresh_kernel_def)

lemma no_file_run:
  "calls (snd (run_all no_file_lib fresh_kernel)) = [(ReadCsv, Some (Raised ''FileNotFoundError''))]"
  by (simp add: run_all_def cell_defs monad_defs toy_defs)

lemma offline_run:
  "calls (snd (run_all offline_lib fresh_kernel)) =
     map (\<lambda>c. (c, None))
      [ReadCsv, Display, FromPandas, Display, GetItem, Display,
       TokenizerFromPretrained, Print, DatasetMap, Subscript, TokenizerCall,
       GetItem, Display, GetItem, DictGet, ConvertIdsToTokens, Display,
       ManualSeed, SetFormat, Display, CudaIsAvailable, TorchDevice Cuda, Display]
     @ [(ModelFromPretrained, Some (Raised ''ConnectionError''))]"
  by (simp add: run_all_def cell_defs monad_defs toy_defs ds_defs fn_defs numeral_2_eq_2 Let_def)

lemma raised_last_failed: "raised_last r (evs @ [(c, Some e)]) \<Longrightarrow> r = Inl e"
  by (cases r) (simp_all add: raised_last_def)

lemma top_level_inner: "inner c \<Longrightarrow> \<not> top_level c"
  by (simp add: top_level_def)

text \<open>
  Claim C6. The notebook defines no exception handling of its own. In every run of
  the notebook, from any state of the kernel and with any behaviour of the libraries,
  the result agrees with the log in the sense of \<open>raised_last\<close>: if the run returns,
  no call raised; if the run raises \<open>e\<close>, then the last call made is a call that
  raised \<open>e\<close>, and no call before it raised. So an exception of a library call ends
  the run at that call (nothing is executed after it, nothing recovers from it) and
  is the exception of the run, unchanged. The same holds for a call of
  \<open>extract_features\<close> and of \<open>batch_tokenize\<close>, and \<open>compute_metrics\<close> returns
  the exception of \<open>evaluate.load\<close> or of \<open>metric.compute\<close> as it is.
\<close>

theorem errors_propagate:
  "calls (snd (run_all L s)) = calls s @ new_calls (run_all L) s
   \<and> raised_last (fst (run_all L s)) (new_calls (run_all L) s)
   \<and> raised_last (fst (extract_features L tok dev model b s))
        (new_calls (extract_features L tok dev model b) s)
   \<and> raised_last (fst (batch_tokenize tok b s)) (new_calls (batch_tokenize tok b) s)
   \<and> (evaluate_load L ''r_squared'' = Inl e \<longrightarrow> compute_metrics L p = Inl e)
   \<and> (evaluate_load L ''r_squared'' = Inr metric \<and> metric_compute L metric preds labels = Inl e
        \<longrightarrow> compute_metrics L [preds, labels] = Inl e)"
proof -
  have "logs (allowed L) (run_all L)"
    using run_all_runs[of top_level L] by (simp add: runs_def top_level_inner)
  then have run: "calls (snd (run_all L s)) = calls s @ new_calls (run_all L) s"
    "raised_last (fst (run_all L s)) (new_calls (run_all L) s)"
    unfolding logs_def by blast+
  have "logs (\<lambda>_. True) (extract_features L tok dev model b)"
    by (rule logs_extract_features) simp_all
  then have ef: "raised_last (fst (extract_features L tok dev model b s))
        (new_calls (extract_features L tok dev model b) s)"
    unfolding logs_def by blast
  have "logs (\<lambda>_. True) (batch_tokenize tok b)"
    by (rule logs_batch_tokenize) simp_all
  then have bt: "raised_last (fst (batch_tokenize tok b s)) (new_calls (batch_tokenize tok b) s)"
    unfolding logs_def by blast
  have cm1: "evaluate_load L ''r_squared'' = Inl e \<longrightarrow> compute_metrics L p = Inl e"
    by (simp add: compute_metrics_def)
  have cm2: "evaluate_load L ''r_squared'' = Inr metric \<and> metric_compute L metric preds labels = Inl e
        \<longrightarrow> compute_metrics L [preds, labels] = Inl e"
    by (simp add: compute_metrics_def)
  from run ef bt cm1 cm2 show ?thesis by blast
qed

text \<open>
  With the CSV file missing the run raises the FileNotFoundError of \<open>read_csv\<close>;
  with the model download failing it raises the ConnectionError of \<open>from_pretrained\<close>.
\<close>

theorem errors_propagate_witness:
  "fst (run_all no_file_lib fresh_kernel) = Inl (Raised ''FileNotFoundError'')
   \<and> fst (run_all offline_lib fresh_kernel) = Inl (Raised ''ConnectionError'')"
proof -
  have "raised_last (fst (run_all no_file_lib fresh_kernel)) (new_calls (run_all no_file_lib) fresh_kernel)"
    using errors_propagate[of no_file_lib fresh_kernel] by blast
  then have "raised_last (fst (run_all no_file_lib fresh_kernel)) ([] @ [(ReadCsv, Some (Raised ''FileNotFoundError''))])"
    by (simp add: new_calls_fresh no_file_run)
  then have a: "fst (run_all no_file_lib fresh_kernel) = Inl (Raised ''FileNotFoundError'')"
    by (rule raised_last_failed)
  have "raised_last (fst (run_all offline_lib fresh_kernel)) (new_calls (run_all offline_lib) fresh_kernel)"
    using errors_propagate[of offline_lib fresh_kernel] by blast
  then have b: "fst (run_all offline_lib fresh_kernel) = Inl (Raised ''ConnectionError'')"
    unfolding new_calls_fresh offline_run by (rule raised_last_failed)
  from a b show ?thesis by blast
qed

section \<open>The order of the steps\<close>





section \<open>The device selection\<close>








section \<open>The value of a batched map\<close>

text \<open>
  When the mapped function keeps the torch state and its value depends on the heap
  only, the dataset returned by \<open>dataset_map\<close> is given by \<open>map_result\<close>.
\<close>

lemma fst_raise_in: "fst (py_raise_in c r s) = r"
  by (cases r) (simp_all add: py_raise_in_def py_call_def py_return_def)

lemma heap_raise_in: "heap (snd (py_raise_in c r s)) = heap s"
  by (cases r) (simp_all add: py_raise_in_def py_call_def py_return_def)

lemma keepsD: "keeps m \<Longrightarrow> heap (snd (m s)) = heap s"
  unfolding keeps_def by blast

lemma fst_mapM_Cons:
  "fst (py_mapM step (tb # tbs) s) =
     (case fst (step tb s) of
        Inl e \<Rightarrow> Inl e
      | Inr y \<Rightarrow> (case fst (py_mapM step tbs (snd (step tb s))) of
                    Inl e \<Rightarrow> Inl e | Inr ys \<Rightarrow> Inr (y # ys)))"
  by (simp add: fst_bind py_return_def split: sum.splits)

lemma mapM_pure_gen:
  assumes step: "\<And>tb s. heap s = h \<Longrightarrow> fst (step tb s) = q tb \<and> heap (snd (step tb s)) = h"
  shows "heap s = h \<Longrightarrow> fst (py_mapM step tbs s) = mapE q tbs"
proof (induction tbs arbitrary: s)
  case Nil
  then show ?case by (simp add: py_return_def)
next
  case (Cons tb tbs)
  from step[OF Cons.prems, of tb]
  have a: "fst (step tb s) = q tb" and b: "heap (snd (step tb s)) = h" by simp_all
  from Cons.IH[OF b] have c: "fst (py_mapM step tbs (snd (step tb s))) = mapE q tbs" .
  show ?case unfolding fst_mapM_Cons a c by simp
qed

lemma mapM_pure:
  assumes g: "\<And>b s. heap s = h \<Longrightarrow> fst (f b s) = g b" and k: "\<And>b. keeps (f b)"
    and s: "heap s = h"
  shows "fst (py_mapM (\<lambda>tb. py_bind (f (format_batch fmt tb)) (\<lambda>out.
            py_raise_in WriteBatch (merge_batch tb out))) tbs s)
       = mapE (map_step g fmt) tbs"
proof (rule mapM_pure_gen[where h = h, OF _ s])
  fix tb and s' :: kernel assume h: "heap s' = h"
  let ?step = "py_bind (f (format_batch fmt tb)) (\<lambda>out.
            py_raise_in WriteBatch (merge_batch tb out))"
  have "fst (?step s') = map_step g fmt tb"
    using g[OF h, of "format_batch fmt tb"]
    by (cases "g (format_batch fmt tb)") (simp_all add: fst_bind map_step_def fst_raise_in)
  moreover have "keeps ?step"
    by (intro keeps_bind k keeps_raise_in)
  then have "heap (snd (?step s')) = h"
    using h by (simp add: keepsD)
  ultimately show "fst (?step s') = map_step g fmt tb \<and> heap (snd (?step s')) = h"
    by simp
qed

lemma dataset_map_pure:
  assumes g: "\<And>b s. heap s = h \<Longrightarrow> fst (f b s) = g b" and k: "\<And>b. keeps (f b)"
    and s: "heap s = h"
  shows "fst (dataset_map L f bs ds s) = map_result L g bs ds"
proof (cases "raises L DatasetMap")
  case (Some e)
  then show ?thesis
    by (simp add: dataset_map_def map_result_def fst_bind py_total_def py_call_def)
next
  case None
  let ?s1 = "snd (py_total L DatasetMap () s)"
  have h1: "heap ?s1 = h" using s by (simp add: py_total_def py_call_def)
  have t: "fst (py_total L DatasetMap () s) = Inr ()"
    using None by (simp add: py_total_def py_call_def)
  note m = mapM_pure[of h f g ?s1 "format_columns ds" "batch_tables bs (columns ds)", OF g k h1]
  have s1: "snd (py_total L DatasetMap () s) = ?s1" by simp
  show ?thesis
    unfolding dataset_map_def map_result_def
    by (cases "mapE (map_step g (format_columns ds)) (batch_tables bs (columns ds))")
       (auto simp: fst_bind t m None py_return_def fst_raise_in split: sum.splits)
qed

section \<open>Tables, slices and concatenation\<close>

lemma concat_slices_take:
  "concat (map (\<lambda>j. take bs (drop (j * bs) xs)) [0..<k]) = take (k * bs) xs"
proof (induction k)
  case 0
  then show ?case by simp
next
  case (Suc k)
  have "take (k * bs) xs @ take bs (drop (k * bs) xs) = take (k * bs + bs) xs"
    by (simp add: take_add)
  with Suc show ?case by (simp add: add.commute)
qed

lemma batches_cover: "0 < bs \<Longrightarrow> (n::nat) \<le> ((n + bs - 1) div bs) * bs"
  using dividend_less_div_times[of bs "n + bs - 1"] by linarith

lemma concat_slices:
  assumes "0 < bs" and "length xs = n"
  shows "concat (map (\<lambda>j. take bs (drop (j * bs) xs)) [0..<(n + bs - 1) div bs]) = xs"
  using batches_cover[OF assms(1), of n] assms(2) by (simp add: concat_slices_take)

lemma map_of_slice_rows:
  "map_of (slice_rows i k t) c = map_option (\<lambda>xs. take k (drop i xs)) (map_of t c)"
  by (induction t) (auto simp: slice_rows_def)




lemma map_of_filter_key: "P c \<Longrightarrow> map_of (filter (\<lambda>cx. P (fst cx)) t) c = map_of t c"
  by (induction t) auto


lemma merge_batch_keeps:
  assumes "merge_batch tb out = Inr m" and "c \<notin> fst ` set out"
  shows "map_of m c = map_of tb c"
proof -
  from assms(1) have m: "m = filter (\<lambda>(c, xs). c \<notin> set (map fst out)) tb
                   @ map (\<lambda>(c, v). (c, obj_rows v)) out"
    by (auto simp: merge_batch_def Let_def split: if_splits)
  have a: "map_of (map (\<lambda>(c, v). (c, obj_rows v)) out) c = None"
    using assms(2) by (induction out) auto
  have b: "map_of (filter (\<lambda>(c, xs). c \<notin> fst ` set out) tb) c = map_of tb c"
    using map_of_filter_key[of "\<lambda>c. c \<notin> fst ` set out" c tb] assms(2)
    by (simp add: case_prod_unfold)
  show ?thesis unfolding m by (cases "map_of tb c") (simp_all add: map_add_def a b)
qed

lemma append_tables_lookup:
  assumes "append_tables a b = Inr t"
  shows "map_of t c = (case map_of a c of None \<Rightarrow> None
           | Some xs \<Rightarrow> (case map_of b c of None \<Rightarrow> None | Some ys \<Rightarrow> Some (xs @ ys)))"
proof -
  from assms have keys: "map fst a = map fst b"
    and t: "t = map (\<lambda>((c, xs), (c', ys)). (c, xs @ ys)) (zip a b)"
    by (auto simp: append_tables_def split: if_splits)
  from keys show ?thesis unfolding t
  proof (induction a arbitrary: b)
    case Nil
    then show ?case by simp
  next
    case (Cons x a)
    then obtain y b' where b: "b = y # b'" by (cases b) auto
    with Cons.prems have k: "fst x = fst y" "map fst a = map fst b'" by simp_all
    from Cons.IH[OF k(2)] k(1) show ?case
      unfolding b by (cases x; cases y) (auto split: option.splits)
  qed
qed

lemma append_tables_keys: "append_tables a b = Inr t \<Longrightarrow> map fst t = map fst a"
proof -
  assume "append_tables a b = Inr t"
  then have keys: "map fst a = map fst b"
    and t: "t = map (\<lambda>((c, xs), (c', ys)). (c, xs @ ys)) (zip a b)"
    by (auto simp: append_tables_def split: if_splits)
  from keys have "length a = length b" by (metis length_map)
  then show ?thesis unfolding t
    by (induction a b rule: list_induct2) auto
qed

lemma concat_tables_keys:
  "concat_tables parts = Inr t \<Longrightarrow> parts \<noteq> [] \<Longrightarrow> map fst t = map fst (hd parts)"
proof (induction parts arbitrary: t rule: concat_tables.induct)
  case 1
  then show ?case by simp
next
  case (2 p)
  then show ?case by simp
next
  case (3 p q ps)
  then show ?case
    by (auto split: sum.splits dest: append_tables_keys)
qed

lemma concat_tables_lookup:
  "concat_tables parts = Inr t \<Longrightarrow> parts \<noteq> [] \<Longrightarrow>
   list_all2 (\<lambda>p ys. map_of p c = Some ys) parts cols \<Longrightarrow> map_of t c = Some (concat cols)"
proof (induction parts arbitrary: t cols rule: concat_tables.induct)
  case 1
  then show ?case by simp
next
  case (2 p)
  then show ?case by (auto simp: list_all2_Cons1)
next
  case (3 p q ps)
  from "3.prems"(1) obtain r where r: "concat_tables (q # ps) = Inr r"
    and t: "append_tables p r = Inr t"
    by (auto split: sum.splits)
  from "3.prems"(3) obtain ys cols' where cols: "cols = ys # cols'"
    and ys: "map_of p c = Some ys"
    and rest: "list_all2 (\<lambda>p ys. map_of p c = Some ys) (q # ps) cols'"
    by (auto simp: list_all2_Cons1)
  from "3.IH"[OF r _ rest] have "map_of r c = Some (concat cols')" by simp
  with append_tables_lookup[OF t, of c] ys show ?case by (simp add: cols)
qed

lemma concat_tables_lookup_none:
  "concat_tables parts = Inr t \<Longrightarrow> parts \<noteq> [] \<Longrightarrow>
   map_of (hd parts) c = None \<Longrightarrow> map_of t c = None"
proof -
  assume a: "concat_tables parts = Inr t" "parts \<noteq> []" "map_of (hd parts) c = None"
  from concat_tables_keys[OF a(1,2)] have "fst ` set t = fst ` set (hd parts)"
    by (metis set_map)
  with a(3) show ?thesis by (simp add: map_of_eq_None_iff)
qed


lemma mapE_all2:
  "mapE f xs = Inr ys \<Longrightarrow> list_all2 (\<lambda>x y. f x = Inr y) xs ys"
proof (induction xs arbitrary: ys)
  case Nil
  then show ?case by simp
next
  case (Cons x xs)
  from Cons.prems obtain y ys' where "f x = Inr y" "mapE f xs = Inr ys'" "ys = y # ys'"
    by (auto split: sum.splits)
  with Cons.IH show ?case by simp
qed


text \<open>A column that the mapped function does not return is the same after the map.\<close>

lemma map_step_keeps:
  assumes "map_step g fmt tb = Inr p" and "\<And>b out. g b = Inr out \<Longrightarrow> c \<notin> fst ` set out"
  shows "map_of p c = map_of tb c"
proof -
  from assms(1) obtain out where o: "g (format_batch fmt tb) = Inr out"
    and m: "merge_batch tb out = Inr p"
    by (auto simp: map_step_def split: sum.splits)
  from merge_batch_keeps[OF m assms(2)[OF o]] show ?thesis .
qed

lemma rectangular_column:
  "rectangular t \<Longrightarrow> map_of t c = Some xs \<Longrightarrow> length xs = num_rows t"
  by (auto simp: rectangular_def list_all_iff dest!: map_of_SomeD)

lemma map_result_cases:
  assumes "map_result L g bs ds = Inr ds'"
  obtains parts where "mapE (map_step g (format_columns ds)) (batch_tables bs (columns ds)) = Inr parts"
    and "parts = [] \<Longrightarrow> ds' = ds"
    and "parts \<noteq> [] \<Longrightarrow> concat_tables parts = Inr (columns ds')"
    and "parts \<noteq> [] \<Longrightarrow> format_columns ds' = transmit_format ds (columns ds')"
  using assms unfolding map_result_def
  by (auto split: option.splits sum.splits if_splits)

lemma map_result_keeps_column:
  assumes res: "map_result L g bs ds = Inr ds'" and rect: "rectangular (columns ds)"
    and bs: "0 < bs" and out: "\<And>b out. g b = Inr out \<Longrightarrow> c \<notin> fst ` set out"
  shows "map_of (columns ds') c = map_of (columns ds) c"
proof -
  let ?t = "columns ds"
  let ?k = "(num_rows ?t + bs - 1) div bs"
  let ?fmt = "format_columns ds"
  from res obtain parts where parts: "mapE (map_step g ?fmt) (batch_tables bs ?t) = Inr parts"
    and empty: "parts = [] \<Longrightarrow> ds' = ds"
    and full: "parts \<noteq> [] \<Longrightarrow> concat_tables parts = Inr (columns ds')"
    by (rule map_result_cases) blast
  show ?thesis
  proof (cases "parts = []")
    case True
    with empty show ?thesis by simp
  next
    case False
    from mapE_all2[OF parts]
    have all2: "list_all2 (\<lambda>tb p. map_step g ?fmt tb = Inr p) (batch_tables bs ?t) parts" .
    then have len: "length parts = ?k"
      by (simp add: list_all2_lengthD[symmetric] batch_tables_def)
    have part: "map_of (parts ! j) c = map_option (\<lambda>xs. take bs (drop (j * bs) xs)) (map_of ?t c)"
      if "j < ?k" for j
    proof -
      from that all2 have "map_step g ?fmt (batch_tables bs ?t ! j) = Inr (parts ! j)"
        by (simp add: list_all2_conv_all_nth batch_tables_def)
      then have "map_of (parts ! j) c = map_of (batch_tables bs ?t ! j) c"
        using out by (rule map_step_keeps)
      with that show ?thesis by (simp add: batch_tables_def map_of_slice_rows)
    qed
    from False have "0 < length parts" by simp
    with len have k: "0 < ?k" by simp
    show ?thesis
    proof (cases "map_of ?t c")
      case None
      from part[OF k] None False have "map_of (hd parts) c = None"
        by (simp add: hd_conv_nth)
      with concat_tables_lookup_none[OF full[OF False] False] None show ?thesis by simp
    next
      case (Some xs)
      let ?cols = "map (\<lambda>j. take bs (drop (j * bs) xs)) [0..<?k]"
      have "list_all2 (\<lambda>p ys. map_of p c = Some ys) parts ?cols"
        using part Some len by (simp add: list_all2_conv_all_nth)
      from concat_tables_lookup[OF full[OF False] False this]
      have "map_of (columns ds') c = Some (concat ?cols)" .
      moreover have "concat ?cols = xs"
        using bs rectangular_column[OF rect Some] by (rule concat_slices)
      ultimately show ?thesis using Some by simp
    qed
  qed
qed









section \<open>One embedding vector per row\<close>

lemma fst_to_all_state:
  "fst (py_mapM (to_entry L d) xs s) = fst (py_mapM (to_entry L d) xs s')"
proof (induction xs arbitrary: s s')
  case Nil
  show ?case by (simp add: py_return_def)
next
  case (Cons kv xs)
  have "fst (to_entry L d kv s) = fst (to_entry L d kv s')"
    by (simp only: fst_to_entry)
  with Cons.IH[of "snd (to_entry L d kv s)" "snd (to_entry L d kv s')"]
  show ?case by (simp only: fst_mapM_Cons)
qed

lemma fst_extract_features_heap:
  assumes "heap s = heap s'"
  shows "fst (extract_features L tok dev model b s) = fst (extract_features L tok dev model b s')"
proof -
  let ?m = "py_mapM (to_entry L dev) (filter (\<lambda>kv. fst kv \<in> set (model_input_names tok)) b)"
  have a: "fst (?m s) = fst (?m s')" by (rule fst_to_all_state)
  have b: "fst (features_of L model inputs (snd (?m s))) = fst (features_of L model inputs (snd (?m s')))"
    for inputs
    by (simp only: fst_features_of heap_to_all assms)
  show ?thesis
    by (simp only: extract_features_alt fst_bind a b)
qed








lemma fst_call: "fst (py_call c r s) = r"
  by (simp add: py_call_def)


lemma fst_return: "fst (py_return v s) = Inr v"
  by (simp add: py_return_def)






section \<open>The text and the labels are preserved\<close>

lemma keeps_batch_tokenize: "keeps (batch_tokenize tok b)"
  unfolding batch_tokenize_def by (intro keeps_bind keeps_call)

lemma fst_batch_tokenize:
  "fst (batch_tokenize tok b s) =
     (case getitem b ''text'' of Inl e \<Rightarrow> Inl e
      | Inr texts \<Rightarrow> tokenize tok texts ''max_length'' True)"
  by (simp add: batch_tokenize_def fst_bind fst_call split: sum.splits)

lemma extract_features_keys:
  assumes "fst (extract_features L tok dev m b s) = Inr out"
  shows "fst ` set out = {''hidden_state''}"
proof -
  from assms obtain inputs where "fst (features_of L m inputs s) = Inr out"
    unfolding extract_features_returns Let_def by blast
  then show ?thesis
    by (auto simp: fst_features_of split: option.splits sum.splits)
qed

lemma tokenize_map_keeps:
  assumes keys: "\<And>texts out. tokenize tok texts ''max_length'' True = Inr out \<Longrightarrow> c \<notin> fst ` set out"
    and rect: "rectangular (columns ds)"
    and res: "fst (dataset_map L (batch_tokenize tok) 8 ds s) = Inr ds'"
  shows "map_of (columns ds') c = map_of (columns ds) c"
proof -
  let ?g = "\<lambda>b. case getitem b ''text'' of Inl e \<Rightarrow> Inl e
      | Inr texts \<Rightarrow> tokenize tok texts ''max_length'' True"
  have "fst (dataset_map L (batch_tokenize tok) 8 ds s) = map_result L ?g 8 ds"
    by (rule dataset_map_pure[where h = "heap s"])
       (simp_all add: fst_batch_tokenize keeps_batch_tokenize)
  with res have r: "map_result L ?g 8 ds = Inr ds'" by simp
  show ?thesis
  proof (rule map_result_keeps_column[OF r rect])
    show "0 < (8::nat)" by simp
    show "c \<notin> fst ` set out" if "?g b = Inr out" for b out
      using that keys by (cases "getitem b ''text''") simp_all
  qed
qed

lemma extract_map_keeps:
  assumes c: "c \<noteq> ''hidden_state''"
    and rect: "rectangular (columns ds)"
    and res: "fst (dataset_map L (extract_features L tok dev m) 8 ds s) = Inr ds'"
  shows "map_of (columns ds') c = map_of (columns ds) c"
proof -
  let ?g = "\<lambda>b. fst (extract_features L tok dev m b s)"
  have "fst (dataset_map L (extract_features L tok dev m) 8 ds s) = map_result L ?g 8 ds"
  proof (rule dataset_map_pure[where h = "heap s"])
    show "fst (extract_features L tok dev m b s') = ?g b" if "heap s' = heap s" for b s'
      using that by (rule fst_extract_features_heap)
    show "keeps (extract_features L tok dev m b)" for b by (rule keeps_extract_features)
    show "heap s = heap s" ..
  qed
  with res have r: "map_result L ?g 8 ds = Inr ds'" by simp
  show ?thesis
  proof (rule map_result_keeps_column[OF r rect])
    show "0 < (8::nat)" by simp
    show "c \<notin> fst ` set out" if "?g b = Inr out" for b out
      using extract_features_keys[OF that] c by simp
  qed
qed

lemma map_of_select_rows:
  "map_of (select_rows idx t) c = map_option (\<lambda>xs. map (\<lambda>i. xs ! i) idx) (map_of t c)"
  by (induction t) (auto simp: select_rows_def)


lemma train_test_split_rows:
  assumes "train_test_split L ts seed ds = Inr (tr, te)"
  shows "\<exists>itr ite. list_all (\<lambda>i. i < num_rows (columns ds)) (itr @ ite)
          \<and> columns tr = select_rows itr (columns ds)
          \<and> columns te = select_rows ite (columns ds)"
proof -
  let ?n = "num_rows (columns ds)"
  let ?perm = "permutation L seed ?n"
  let ?nt = "nat \<lceil>ts * real ?n\<rceil>"
  from assms have all: "list_all (\<lambda>i. i < ?n) ?perm"
    and tr: "columns tr = select_rows (take (?n - ?nt) (drop ?nt ?perm)) (columns ds)"
    and te: "columns te = select_rows (take ?nt ?perm) (columns ds)"
    by (auto simp: train_test_split_def Let_def split: if_splits)
  from all have "list_all (\<lambda>i. i < ?n) (take (?n - ?nt) (drop ?nt ?perm) @ take ?nt ?perm)"
    by (auto simp: list_all_iff dest: in_set_takeD in_set_dropD)
  with tr te show ?thesis by blast
qed

lemma cell_tokenize_result:
  "fst (cell_tokenize L tok ds s) = Inr ds' \<Longrightarrow>
     fst (dataset_map L (batch_tokenize tok) 8 ds s) = Inr ds'"
  by (simp add: cell_tokenize_def fst_bind fst_return split: sum.splits)

lemma cell_extract_result:
  "fst (cell_extract L tok dev m ds s) = Inr ds' \<Longrightarrow>
     fst (dataset_map L (extract_features L tok dev m) 8 ds s) = Inr ds'"
  by (simp add: cell_extract_def fst_bind fst_return split: sum.splits)

lemma cell_set_format_result:
  "fst (cell_set_format L ds s) = Inr ds' \<Longrightarrow>
     set_format [''input_ids'', ''attention_mask'', ''labels''] ds = Inr ds'"
  by (simp add: cell_set_format_def fst_bind fst_call fst_return split: sum.splits)

lemma cell_from_pandas_result:
  "fst (cell_from_pandas L df s) = Inr ds' \<Longrightarrow> ds' = from_pandas df"
  by (simp add: cell_from_pandas_def fst_bind fst_return py_total_def fst_call
      split: sum.splits option.splits)

lemma cell_split_result:
  "fst (cell_split L ds s) = Inr dd \<Longrightarrow> train_test_split L (2 / 10) 42 ds = Inr dd"
  by (simp add: cell_split_def fst_bind fst_call fst_return split: sum.splits)

text \<open>
  Claim C7. Every dataset transformation of the pipeline preserves the columns
  \<open>text\<close> and \<open>labels\<close>. Let \<open>c\<close> be one of the two, let the tokenizer return no
  other keys than \<open>input_ids\<close> and \<open>attention_mask\<close>, and let the table of \<open>ds\<close> be
  rectangular. Whenever the cell returns a dataset,
  \<^item> \<open>Dataset.from_pandas\<close> gives column \<open>c\<close> of the frame;
  \<^item> the tokenizing map, \<open>set_format\<close> and the feature-extraction map give a dataset
    whose column \<open>c\<close> is column \<open>c\<close> of \<open>ds\<close>, row by row;
  \<^item> \<open>train_test_split\<close> gives two datasets whose rows are rows of \<open>ds\<close>: there
    are lists of row indices \<open>itr\<close> and \<open>ite\<close> such that row \<open>j\<close> of the train
    (test) split has in every column the value of row \<open>itr ! j\<close> (\<open>ite ! j\<close>) of
    \<open>ds\<close>.

  The columns are those of the stored table. The torch format of cell 21 does not list
  \<open>text\<close>: the column stays in the table and is left out of the rows and batches the
  dataset hands out.
\<close>

theorem text_and_labels_preserved:
  assumes c: "c = ''text'' \<or> c = ''labels''"
    and keys: "\<forall>texts out. tokenize tok texts ''max_length'' True = Inr out \<longrightarrow>
                 fst ` set out \<subseteq> {''input_ids'', ''attention_mask''}"
    and rect: "rectangular (columns ds)"
  shows "(fst (cell_from_pandas L df s) = Inr loaded \<longrightarrow> map_of (columns loaded) c = map_of df c)
    \<and> (fst (cell_tokenize L tok ds s) = Inr tokenized \<longrightarrow>
         map_of (columns tokenized) c = map_of (columns ds) c)
    \<and> (fst (cell_set_format L ds s) = Inr formatted \<longrightarrow>
         map_of (columns formatted) c = map_of (columns ds) c)
    \<and> (fst (cell_extract L tok dev m ds s) = Inr extracted \<longrightarrow>
         map_of (columns extracted) c = map_of (columns ds) c)
    \<and> (fst (cell_split L ds s) = Inr (train, test) \<longrightarrow>
         (\<exists>itr ite. list_all (\<lambda>i. i < num_rows (columns ds)) (itr @ ite)
            \<and> (\<forall>k. map_of (columns train) k
                   = map_option (\<lambda>xs. map (\<lambda>i. xs ! i) itr) (map_of (columns ds) k))
            \<and> (\<forall>k. map_of (columns test) k
                   = map_option (\<lambda>xs. map (\<lambda>i. xs ! i) ite) (map_of (columns ds) k))))"
proof (intro conjI impI)
  assume "fst (cell_from_pandas L df s) = Inr loaded"
  from cell_from_pandas_result[OF this]
  show "map_of (columns loaded) c = map_of df c" by (simp add: from_pandas_def)
next
  assume "fst (cell_tokenize L tok ds s) = Inr tokenized"
  then have r: "fst (dataset_map L (batch_tokenize tok) 8 ds s) = Inr tokenized"
    by (rule cell_tokenize_result)
  have "c \<notin> fst ` set out" if "tokenize tok texts ''max_length'' True = Inr out" for texts out
  proof -
    from keys that have "fst ` set out \<subseteq> {''input_ids'', ''attention_mask''}" by blast
    with c show ?thesis by auto
  qed
  from tokenize_map_keeps[OF this rect r]
  show "map_of (columns tokenized) c = map_of (columns ds) c" .
next
  assume "fst (cell_set_format L ds s) = Inr formatted"
  from cell_set_format_result[OF this]
  show "map_of (columns formatted) c = map_of (columns ds) c"
    by (auto simp: set_format_def split: if_splits)
next
  assume "fst (cell_extract L tok dev m ds s) = Inr extracted"
  then have r: "fst (dataset_map L (extract_features L tok dev m) 8 ds s) = Inr extracted"
    by (rule cell_extract_result)
  from c have "c \<noteq> ''hidden_state''" by auto
  from extract_map_keeps[OF this rect r]
  show "map_of (columns extracted) c = map_of (columns ds) c" .
next
  assume "fst (cell_split L ds s) = Inr (train, test)"
  from train_test_split_rows[OF cell_split_result[OF this]]
  obtain itr ite where "list_all (\<lambda>i. i < num_rows (columns ds)) (itr @ ite)"
    and "columns train = select_rows itr (columns ds)"
    and "columns test = select_rows ite (columns ds)" by blast
  then show "\<exists>itr ite. list_all (\<lambda>i. i < num_rows (columns ds)) (itr @ ite)
            \<and> (\<forall>k. map_of (columns train) k
                   = map_option (\<lambda>xs. map (\<lambda>i. xs ! i) itr) (map_of (columns ds) k))
            \<and> (\<forall>k. map_of (columns test) k
                   = map_option (\<lambda>xs. map (\<lambda>i. xs ! i) ite) (map_of (columns ds) k))"
    by (auto simp: map_of_select_rows)
qed

lemma toy_pipeline:
  "\<exists>loaded. fst (cell_from_pandas (toy_lib 2 2) (toy_table 2) fresh_kernel) = Inr loaded"
  "\<exists>tokenized. fst (cell_tokenize (toy_lib 2 2) toy_tokenizer (from_pandas (toy_table 2)) fresh_kernel)
      = Inr tokenized"
  "\<exists>formatted. fst (cell_set_format (toy_lib 2 2) (toy_dataset 2) loaded_kernel) = Inr formatted"
  "\<exists>extracted. fst (cell_extract (toy_lib 2 2) toy_tokenizer Cuda 0 (toy_dataset 2) loaded_kernel) = Inr extracted"
  "\<exists>train test. fst (cell_split (toy_lib 2 2) (toy_dataset 2) loaded_kernel) = Inr (train, test)"
  by (simp_all add: cell_defs monad_defs toy_defs toy_dataset_def ds_defs fn_defs
      numeral_2_eq_2 Let_def)

text \<open>The five cells on the toy instance.\<close>

theorem text_and_labels_preserved_witness:
  "(\<exists>loaded. fst (cell_from_pandas (toy_lib 2 2) (toy_table 2) fresh_kernel) = Inr loaded
       \<and> map_of (columns loaded) ''labels'' = Some [PFloat 49, PFloat 49])
   \<and> (\<exists>tokenized.
        fst (cell_tokenize (toy_lib 2 2) toy_tokenizer (from_pandas (toy_table 2)) fresh_kernel)
          = Inr tokenized
        \<and> map_of (columns tokenized) ''labels'' = Some [PFloat 49, PFloat 49])
   \<and> (\<exists>formatted. fst (cell_set_format (toy_lib 2 2) (toy_dataset 2) loaded_kernel) = Inr formatted
        \<and> map_of (columns formatted) ''text'' = Some [PStr ''Broken leg.'', PStr ''Broken leg.''])
   \<and> (\<exists>extracted.
        fst (cell_extract (toy_lib 2 2) toy_tokenizer Cuda 0 (toy_dataset 2) loaded_kernel)
          = Inr extracted
        \<and> map_of (columns extracted) ''text'' = Some [PStr ''Broken leg.'', PStr ''Broken leg.''])
   \<and> (\<exists>train test itr ite.
        fst (cell_split (toy_lib 2 2) (toy_dataset 2) loaded_kernel) = Inr (train, test)
        \<and> list_all (\<lambda>i. i < 2) (itr @ ite)
        \<and> map_of (columns train) ''text''
            = Some (map (\<lambda>i. [PStr ''Broken leg.'', PStr ''Broken leg.''] ! i) itr)
        \<and> map_of (columns test) ''text''
            = Some (map (\<lambda>i. [PStr ''Broken leg.'', PStr ''Broken leg.''] ! i) ite))"
proof -
  from toy_pipeline obtain loaded tokenized formatted extracted train test where
    run: "fst (cell_from_pandas (toy_lib 2 2) (toy_table 2) fresh_kernel) = Inr loaded"
      "fst (cell_tokenize (toy_lib 2 2) toy_tokenizer (from_pandas (toy_table 2)) fresh_kernel)
         = Inr tokenized"
      "fst (cell_set_format (toy_lib 2 2) (toy_dataset 2) loaded_kernel) = Inr formatted"
      "fst (cell_extract (toy_lib 2 2) toy_tokenizer Cuda 0 (toy_dataset 2) loaded_kernel)
         = Inr extracted"
      "fst (cell_split (toy_lib 2 2) (toy_dataset 2) loaded_kernel) = Inr (train, test)"
    by blast
  have keys: "\<forall>texts out. tokenize toy_tokenizer texts ''max_length'' True = Inr out \<longrightarrow>
      fst ` set out \<subseteq> {''input_ids'', ''attention_mask''}"
    by (auto simp: toy_tokenizer_def)
  have rect: "rectangular (columns (from_pandas (toy_table 2)))"
    "rectangular (columns (toy_dataset 2))"
    by (simp_all add: rectangular_def from_pandas_def toy_dataset_def toy_table_def num_rows_def)
  have cols: "map_of (toy_table 2) ''labels'' = Some [PFloat 49, PFloat 49]"
    "map_of (columns (from_pandas (toy_table 2))) ''labels'' = Some [PFloat 49, PFloat 49]"
    "map_of (columns (toy_dataset 2)) ''text'' = Some [PStr ''Broken leg.'', PStr ''Broken leg.'']"
    "num_rows (columns (toy_dataset 2)) = 2"
    by (simp_all add: from_pandas_def toy_dataset_def toy_table_def num_rows_def numeral_2_eq_2)
  note a = text_and_labels_preserved[where c = "''labels''" and tok = toy_tokenizer
      and ds = "from_pandas (toy_table 2)" and L = "toy_lib 2 2" and s = fresh_kernel
      and df = "toy_table 2" and loaded = loaded and tokenized = tokenized,
      OF _ keys rect(1)]
  note b = text_and_labels_preserved[where c = "''text''" and tok = toy_tokenizer
      and ds = "toy_dataset 2" and L = "toy_lib 2 2" and s = loaded_kernel
      and formatted = formatted and extracted = extracted and dev = Cuda and m = 0
      and train = train and test = test,
      OF _ keys rect(2)]
  from a run cols have one: "map_of (columns loaded) ''labels'' = Some [PFloat 49, PFloat 49]"
    and two: "map_of (columns tokenized) ''labels'' = Some [PFloat 49, PFloat 49]"
    by simp_all
  from b run cols
  have three: "map_of (columns formatted) ''text'' = Some [PStr ''Broken leg.'', PStr ''Broken leg.'']"
    and four: "map_of (columns extracted) ''text'' = Some [PStr ''Broken leg.'', PStr ''Broken leg.'']"
    by simp_all
  from b run obtain itr ite where "list_all (\<lambda>i. i < num_rows (columns (toy_dataset 2))) (itr @ ite)"
    and "map_of (columns train) ''text''
        = map_option (\<lambda>xs. map (\<lambda>i. xs ! i) itr) (map_of (columns (toy_dataset 2)) ''text'')"
    and "map_of (columns test) ''text''
        = map_option (\<lambda>xs. map (\<lambda>i. xs ! i) ite) (map_of (columns (toy_dataset 2)) ''text'')"
    by blast
  with cols have five: "\<exists>itr ite. list_all (\<lambda>i. i < 2) (itr @ ite)
        \<and> map_of (columns train) ''text''
            = Some (map (\<lambda>i. [PStr ''Broken leg.'', PStr ''Broken leg.''] ! i) itr)
        \<and> map_of (columns test) ''text''
            = Some (map (\<lambda>i. [PStr ''Broken leg.'', PStr ''Broken leg.''] ! i) ite)"
    by auto
  from one two three four five run show ?thesis by blast
qed

section \<open>The split for fine-tuning\<close>





end
